theory Spec2Isabelle
  imports Main
begin

section \<open>The IoT gateway node of \<^verbatim>\<open>custom.ts\<close>\<close>

text \<open>
  A shallow embedding of namespace \<^verbatim>\<open>IoT\<close> of \<^verbatim>\<open>src/custom.ts\<close>: the device registrar,
  the three message buffers per device, the round-robin handshake and the command relay.
  The module's global variables are the fields of one record that every function takes
  and returns. A JavaScript exception (a method called on \<^verbatim>\<open>undefined\<close> or \<^verbatim>\<open>null\<close>) and
  \<^verbatim>\<open>control.reset()\<close> end the running handler: they are the \<open>Inl\<close> results, which keep
  the kind of the end and the variables as they are at that point (what ran before the
  exception has been done).

  Numbers are the integer-valued ones, \<^verbatim>\<open>NaN\<close> (what \<^verbatim>\<open>%\<close> gives on an empty registrar)
  and \<^verbatim>\<open>undefined\<close> (what an out-of-range array read gives); fractional numbers are not
  modelled, and the text of a number is the one JavaScript prints only for the integers
  of magnitude below \<open>10\<^sup>2\<^sup>1\<close> (\<open>printable\<close> below).
  Time is \<^verbatim>\<open>input.runningTime()\<close>, kept in the field \<open>clock\<close>; it advances by
  \<^verbatim>\<open>basic.pause\<close> inside a handler. The display, LED and pin calls neither read nor write
  any variable of the module and are left out.
\<close>

subsection \<open>Strings and numbers\<close>

datatype jsnum = Num int | NaN | Undefined

fun digits :: "nat \<Rightarrow> string" where
  "digits n = (if n < 10 then [''0123456789'' ! n]
               else digits (n div 10) @ [''0123456789'' ! (n mod 10)])"

declare digits.simps [simp del]

definition show_int :: "int \<Rightarrow> string" where
  "show_int i = (if i < 0 then ''-'' @ digits (nat (- i)) else digits (nat i))"

text \<open>\<^verbatim>\<open>"" + v\<close> for a number \<open>v\<close>.\<close>

fun show_num :: "jsnum \<Rightarrow> string" where
  "show_num (Num i) = show_int i"
| "show_num NaN = ''NaN''"
| "show_num Undefined = ''undefined''"

text \<open>
  The numbers whose text \<open>show_num\<close> gives as JavaScript does: from \<open>10\<^sup>2\<^sup>1\<close> on JavaScript
  prints a number with an exponent.
\<close>

definition printable :: "jsnum \<Rightarrow> bool" where
  "printable n = (case n of Num i \<Rightarrow> \<bar>i\<bar> < 10 ^ 21 | _ \<Rightarrow> True)"

text \<open>\<^verbatim>\<open>a == b\<close>, \<^verbatim>\<open>a > 0\<close>, \<^verbatim>\<open>a >= 0\<close> and \<^verbatim>\<open>a < 0\<close> on numbers: false on \<^verbatim>\<open>NaN\<close> and \<^verbatim>\<open>undefined\<close>.\<close>

fun js_eq :: "jsnum \<Rightarrow> jsnum \<Rightarrow> bool" where
  "js_eq (Num a) (Num b) = (a = b)"
| "js_eq _ _ = False"

fun js_pos :: "jsnum \<Rightarrow> bool" where
  "js_pos (Num a) = (0 < a)"
| "js_pos _ = False"

fun js_nonneg :: "jsnum \<Rightarrow> bool" where
  "js_nonneg (Num a) = (0 \<le> a)"
| "js_nonneg _ = False"

fun js_neg :: "jsnum \<Rightarrow> bool" where
  "js_neg (Num a) = (a < 0)"
| "js_neg _ = False"

text \<open>\<^verbatim>\<open>(m + 1) % n\<close> for an array length \<open>n\<close>: the sign of the dividend, \<^verbatim>\<open>NaN\<close> when \<open>n = 0\<close>.\<close>

definition js_rem :: "int \<Rightarrow> int \<Rightarrow> jsnum" where
  "js_rem a n = (if n = 0 then NaN else Num (sgn a * (\<bar>a\<bar> mod \<bar>n\<bar>)))"

fun next_index :: "jsnum \<Rightarrow> nat \<Rightarrow> jsnum" where
  "next_index (Num m) n = js_rem (m + 1) (int n)"
| "next_index _ n = NaN"

text \<open>\<^verbatim>\<open>s.includes(pat)\<close>.\<close>

fun includes_str :: "string \<Rightarrow> string \<Rightarrow> bool" where
  "includes_str [] pat = (pat = [])"
| "includes_str (c # cs) pat = (take (length pat) (c # cs) = pat \<or> includes_str cs pat)"

text \<open>\<^verbatim>\<open>s.split(sep)\<close> for a separator of one character: \<^verbatim>\<open>"".split(":")\<close> is \<^verbatim>\<open>[""]\<close>.\<close>

fun split :: "char \<Rightarrow> string \<Rightarrow> string list" where
  "split sep [] = [[]]"
| "split sep (c # cs) =
     (if c = sep then [] # split sep cs
      else (case split sep cs of [] \<Rightarrow> [[c]] | w # ws \<Rightarrow> (c # w) # ws))"

text \<open>\<^verbatim>\<open>xs.indexOf(x)\<close>: the first position of \<open>x\<close>, or \<open>-1\<close>.\<close>

fun indexOf :: "int list \<Rightarrow> int \<Rightarrow> int" where
  "indexOf [] x = - 1"
| "indexOf (y # ys) x =
     (if y = x then 0 else (let r = indexOf ys x in if r < 0 then - 1 else r + 1))"

fun indexOf_str :: "string list \<Rightarrow> string \<Rightarrow> int" where
  "indexOf_str [] x = - 1"
| "indexOf_str (y # ys) x =
     (if y = x then 0 else (let r = indexOf_str ys x in if r < 0 then - 1 else r + 1))"

text \<open>\<^verbatim>\<open>xs[i]\<close> as a read: \<^verbatim>\<open>undefined\<close> (\<open>None\<close>) out of range and at \<^verbatim>\<open>NaN\<close>.\<close>

fun arr_get :: "'a list \<Rightarrow> jsnum \<Rightarrow> 'a option" where
  "arr_get xs (Num i) = (if 0 \<le> i \<and> i < int (length xs) then Some (xs ! nat i) else None)"
| "arr_get xs _ = None"

text \<open>A number read from an array, \<^verbatim>\<open>undefined\<close> when the read is out of range.\<close>

definition num_at :: "int list \<Rightarrow> jsnum \<Rightarrow> jsnum" where
  "num_at xs i = (case arr_get xs i of Some v \<Rightarrow> Num v | None \<Rightarrow> Undefined)"

subsection \<open>The module's variables\<close>

datatype mode = EndPoint | Gateway

datatype error = TypeError | DeviceReset

datatype radio_msg = SendString string | SendValue string jsnum

text \<open>The switches of the telemetry categories (\<^verbatim>\<open>doTemperature\<close> and its siblings).\<close>

record toggles =
  doAccelerometer :: bool
  doMagneticForce :: bool
  doRotation :: bool
  doDigitalRead :: bool
  doAnalogRead :: bool
  doCompass :: bool
  doTemperature :: bool
  doLightLevel :: bool

text \<open>What the sensor getters return when a handler reads them.\<close>

record sensors =
  temperature :: int
  lightLevel :: int
  accX :: int
  accY :: int
  accZ :: int
  accS :: int
  magX :: int
  magY :: int
  magZ :: int
  magS :: int
  rotPitch :: int
  rotRoll :: int
  digitalP0 :: int
  digitalP1 :: int
  digitalP2 :: int
  analogP0 :: int
  analogP1 :: int
  analogP2 :: int

text \<open>
  \<open>device_telemetry\<close> holds \<^verbatim>\<open>null\<close> (\<open>None\<close>) for a deactivated device. \<open>serialNumber\<close> is
  \<^verbatim>\<open>control.deviceSerialNumber()\<close>; \<open>serial_out\<close> and \<open>radio_out\<close> are the lines written
  with \<^verbatim>\<open>serial.writeLine\<close> and the packets sent on the radio, oldest first.
\<close>

record gstate =
  deviceMode :: mode
  showDebug :: bool
  doTelemetry :: bool
  device_telemetry :: "string option list"
  device_property :: "string list"
  device_log :: "string list"
  device_registrar :: "int list"
  packet_loss :: int
  timerRadioRequest :: int
  timerGatewayRequest :: int
  microbit_ID :: jsnum
  activeRadioRequest :: bool
  identity :: jsnum
  doProperty :: bool
  propString :: "string list"
  propValue :: "jsnum list"
  switches :: toggles
  doCommands :: bool
  serialNumber :: int
  clock :: int
  serial_out :: "string list"
  radio_out :: "radio_msg list"

definition init_telemetry :: string where
  \<open>init_telemetry = ''{"topic":"telemetry"}''\<close>

definition init_property :: string where
  \<open>init_property = ''{"topic":"property"}''\<close>

definition init_log :: string where
  \<open>init_log = ''{"topic":"device_log"}''\<close>

definition delay :: int where
  "delay = 20"

text \<open>The module's variables as their initialisers leave them, on a device with serial number \<open>sn\<close>.\<close>

definition boot :: "int \<Rightarrow> gstate" where
  "boot sn = \<lparr> deviceMode = Gateway, showDebug = True, doTelemetry = True,
     device_telemetry = [], device_property = [], device_log = [], device_registrar = [],
     packet_loss = 0, timerRadioRequest = 0, timerGatewayRequest = 0, microbit_ID = Num 0,
     activeRadioRequest = False, identity = Num (- 1), doProperty = True,
     propString = [], propValue = [],
     switches = \<lparr> doAccelerometer = True, doMagneticForce = True, doRotation = True,
       doDigitalRead = False, doAnalogRead = False, doCompass = False,
       doTemperature = True, doLightLevel = True \<rparr>,
     doCommands = True, serialNumber = sn, clock = 0, serial_out = [], radio_out = [] \<rparr>"

subsection \<open>Results and sequencing\<close>

type_synonym result = "(error \<times> gstate) + gstate"

definition and_then :: "result \<Rightarrow> (gstate \<Rightarrow> result) \<Rightarrow> result" where
  "and_then r f = (case r of Inl e \<Rightarrow> Inl e | Inr s \<Rightarrow> f s)"

text \<open>Statements run one after the other; the first exception ends the run.\<close>

fun run_all :: "(gstate \<Rightarrow> result) list \<Rightarrow> gstate \<Rightarrow> result" where
  "run_all [] s = Inr s"
| "run_all (f # fs) s = and_then (f s) (run_all fs)"

definition when_do :: "bool \<Rightarrow> (gstate \<Rightarrow> result) list \<Rightarrow> (gstate \<Rightarrow> result) list" where
  "when_do b fs = (if b then fs else [])"

subsection \<open>Output, pauses and timers\<close>

definition pause :: "int \<Rightarrow> gstate \<Rightarrow> gstate" where
  "pause ms s = s\<lparr>clock := clock s + ms\<rparr>"

definition serial_writeLine :: "string \<Rightarrow> gstate \<Rightarrow> gstate" where
  "serial_writeLine l s = s\<lparr>serial_out := serial_out s @ [l]\<rparr>"

definition radio_sendString :: "string \<Rightarrow> gstate \<Rightarrow> gstate" where
  "radio_sendString t s = s\<lparr>radio_out := radio_out s @ [SendString t]\<rparr>"

definition radio_sendValue :: "string \<Rightarrow> jsnum \<Rightarrow> gstate \<Rightarrow> gstate" where
  "radio_sendValue n v s = s\<lparr>radio_out := radio_out s @ [SendValue n v]\<rparr>"

text \<open>The line \<^verbatim>\<open>debug(s, v)\<close> writes; \<open>v\<close> is \<open>None\<close> when the argument is left out.\<close>

definition debug_line :: "string \<Rightarrow> jsnum option \<Rightarrow> string" where
  \<open>debug_line t v = ''{"topic":"debug",'' @ ''"debug": "'' @ t @
     (case v of None \<Rightarrow> ''"}'' | Some Undefined \<Rightarrow> ''"}'' | Some n \<Rightarrow> '' = '' @ show_num n @ ''"}'')\<close>

definition debug :: "string \<Rightarrow> jsnum option \<Rightarrow> gstate \<Rightarrow> gstate" where
  "debug t v s =
     (if deviceMode s = Gateway \<and> showDebug s
      then pause 20 (serial_writeLine (debug_line t v) s) else s)"

text \<open>\<^verbatim>\<open>t || 400\<close>: the default also replaces an argument of \<open>0\<close>.\<close>

definition setTimerRadioRequest :: "int option \<Rightarrow> gstate \<Rightarrow> gstate" where
  "setTimerRadioRequest t s =
     (if deviceMode s = Gateway
      then s\<lparr>timerRadioRequest :=
             clock s + (case t of None \<Rightarrow> 400 | Some v \<Rightarrow> if v = 0 then 400 else v)\<rparr>
      else s)"

definition setTimerGatewayRequest :: "int option \<Rightarrow> gstate \<Rightarrow> gstate" where
  "setTimerGatewayRequest t s =
     (if deviceMode s = Gateway
      then s\<lparr>timerGatewayRequest :=
             clock s + (case t of None \<Rightarrow> 250 | Some v \<Rightarrow> if v = 0 then 250 else v)\<rparr>
      else s)"

subsection \<open>The message buffers\<close>

text \<open>
  \<^verbatim>\<open>device_telemetry[i]\<close> as the receiver of a method call: \<open>None\<close> when the read gives
  \<^verbatim>\<open>undefined\<close> or \<^verbatim>\<open>null\<close>, where \<^verbatim>\<open>JSON.includes\<close> throws.
\<close>

definition telemetry_slot :: "gstate \<Rightarrow> jsnum \<Rightarrow> string option" where
  "telemetry_slot s i = (case arr_get (device_telemetry s) i of Some (Some j) \<Rightarrow> Some j | _ \<Rightarrow> None)"

text \<open>\<^verbatim>\<open>xs[i] = v\<close> at an index that was just read in range (every buffer write of the module).\<close>

fun arr_set :: "'a list \<Rightarrow> jsnum \<Rightarrow> 'a \<Rightarrow> 'a list" where
  "arr_set xs (Num i) v = (if 0 \<le> i \<and> i < int (length xs) then xs[nat i := v] else xs)"
| "arr_set xs _ v = xs"

text \<open>A buffer that ends an object is reopened: the last character goes, a comma comes.\<close>

definition reopen :: "string \<Rightarrow> string" where
  "reopen j = (if includes_str j ''}'' then take (length j - 1) j @ '','' else j)"

definition field :: "string \<Rightarrow> jsnum \<Rightarrow> string" where
  \<open>field text num = ''"'' @ text @ ''"'' @ '':'' @ show_num num @ ''}''\<close>

text \<open>The complete line, an empty line, and the pause after each.\<close>

definition flush :: "string \<Rightarrow> gstate \<Rightarrow> gstate" where
  "flush j s = pause delay (serial_writeLine [] (pause delay (serial_writeLine j s)))"

definition gatewaySendProperty :: "int \<Rightarrow> string \<Rightarrow> jsnum \<Rightarrow> gstate \<Rightarrow> result" where
  "gatewaySendProperty sn text num s =
     (if deviceMode s \<noteq> Gateway then Inr s
      else
        let s1 = s\<lparr>microbit_ID := Num (indexOf (device_registrar s) sn)\<rparr>;
            s2 = debug (''ID='' @ show_num (microbit_ID s1) @ '' sn='' @ show_int sn @
                        '' property('' @ text @ '','' @ show_num num @ '')'') None s1
        in case arr_get (device_property s2) (microbit_ID s2) of
             None \<Rightarrow> Inl (TypeError, s2)
           | Some j0 \<Rightarrow>
               let j2 = reopen j0 @ field text num
               in if includes_str j2 ''eom''
                  then let s4 = flush j2 (debug ''eom property'' None s2)
                       in Inr (s4\<lparr>device_property :=
                                 arr_set (device_property s4) (microbit_ID s4) init_property\<rparr>)
                  else Inr (s2\<lparr>device_property :=
                                 arr_set (device_property s2) (microbit_ID s2) j2\<rparr>))"

definition gatewaySendLog :: "int \<Rightarrow> string \<Rightarrow> jsnum \<Rightarrow> gstate \<Rightarrow> result" where
  "gatewaySendLog sn text num s =
     (if deviceMode s \<noteq> Gateway then Inr s
      else
        let s1 = s\<lparr>microbit_ID := Num (indexOf (device_registrar s) sn)\<rparr>;
            s2 = debug (''ID='' @ show_num (microbit_ID s1) @ '' sn='' @ show_int sn @
                        '' log('' @ text @ '','' @ show_num num @ '')'') None s1
        in case arr_get (device_log s2) (microbit_ID s2) of
             None \<Rightarrow> Inl (TypeError, s2)
           | Some j0 \<Rightarrow>
               let j2 = reopen j0 @ field text num
               in if includes_str j2 ''eom''
                  then let s4 = flush j2 (debug ''eom log'' None s2)
                       in Inr (s4\<lparr>device_log :=
                                 arr_set (device_log s4) (microbit_ID s4) init_log\<rparr>)
                  else Inr (s2\<lparr>device_log := arr_set (device_log s2) (microbit_ID s2) j2\<rparr>))"

text \<open>Telemetry takes a field only once the buffer holds \<^verbatim>\<open>id\<close>, or when the field is \<^verbatim>\<open>id\<close>.\<close>

definition gatewaySendTelemetry :: "int \<Rightarrow> string \<Rightarrow> jsnum \<Rightarrow> gstate \<Rightarrow> result" where
  "gatewaySendTelemetry sn text num s =
     (if deviceMode s \<noteq> Gateway then Inr s
      else
        let s1 = s\<lparr>microbit_ID := Num (indexOf (device_registrar s) sn)\<rparr>;
            s2 = debug (''ID='' @ show_num (microbit_ID s1) @
                        '' telemetry('' @ text @ '','' @ show_num num @ '')'') None s1
        in case telemetry_slot s2 (microbit_ID s2) of
             None \<Rightarrow> Inl (TypeError, s2)
           | Some j0 \<Rightarrow>
               let j1 = reopen j0;
                   taken = (includes_str j1 ''id'' \<or> text = ''id'');
                   j2 = (if taken then j1 @ field text num else j1);
                   s3 = (if taken then s2
                         else debug (''skipped: '' @ text @ '':'' @ show_num num) None s2)
               in if includes_str j2 ''eom''
                  then let s4 = flush j2 s3
                       in Inr (s4\<lparr>device_telemetry :=
                                 arr_set (device_telemetry s4) (microbit_ID s4) (Some init_telemetry)\<rparr>)
                  else Inr (s3\<lparr>device_telemetry :=
                                 arr_set (device_telemetry s3) (microbit_ID s3) (Some j2)\<rparr>))"

subsection \<open>The gateway's own telemetry and properties\<close>

text \<open>The appends of \<^verbatim>\<open>gatewaySubmitTelemetry\<close>, in the order of its statements.\<close>

definition telemetry_report :: "sensors \<Rightarrow> int \<Rightarrow> toggles \<Rightarrow> (gstate \<Rightarrow> result) list" where
  "telemetry_report e sn w =
     [gatewaySendTelemetry sn ''id'' (Num 0),
      gatewaySendTelemetry sn ''sn'' (Num sn),
      (\<lambda>s. gatewaySendTelemetry sn ''time'' (Num (clock s)) s),
      (\<lambda>s. gatewaySendTelemetry sn ''packetLoss'' (Num (packet_loss s)) s),
      gatewaySendTelemetry sn ''signal'' (Num 100)]
     @ when_do (doTemperature w)
        [gatewaySendTelemetry sn ''temperature'' (Num (temperature e))]
     @ when_do (doLightLevel w)
        [gatewaySendTelemetry sn ''lightLevel'' (Num (lightLevel e))]
     @ when_do (doAccelerometer w)
        [gatewaySendTelemetry sn ''accelerometerX'' (Num (accX e)),
         gatewaySendTelemetry sn ''accelerometerY'' (Num (accY e)),
         gatewaySendTelemetry sn ''accelerometerZ'' (Num (accZ e)),
         gatewaySendTelemetry sn ''accelerometerS'' (Num (accS e))]
     @ when_do (doMagneticForce w)
        [gatewaySendTelemetry sn ''magneticForceX'' (Num (magX e)),
         gatewaySendTelemetry sn ''magneticForceY'' (Num (magY e)),
         gatewaySendTelemetry sn ''magneticForceZ'' (Num (magZ e)),
         gatewaySendTelemetry sn ''magneticForceS'' (Num (magS e))]
     @ when_do (doRotation w)
        [gatewaySendTelemetry sn ''rotationPitch'' (Num (rotPitch e)),
         gatewaySendTelemetry sn ''rotationRoll'' (Num (rotRoll e))]
     @ when_do (doCompass w)
        [gatewaySendTelemetry sn ''compass'' (Num 1)]
     @ when_do (doDigitalRead w)
        [gatewaySendTelemetry sn ''digitalPinP0'' (Num (digitalP0 e)),
         gatewaySendTelemetry sn ''digitalPinP1'' (Num (digitalP1 e)),
         gatewaySendTelemetry sn ''digitalPinP2'' (Num (digitalP2 e))]
     @ when_do (doAnalogRead w)
        [gatewaySendTelemetry sn ''analogPinP0'' (Num (analogP0 e)),
         gatewaySendTelemetry sn ''analogPinP1'' (Num (analogP1 e)),
         gatewaySendTelemetry sn ''analogPinP2'' (Num (analogP2 e))]
     @ [gatewaySendTelemetry sn ''eom'' (Num 1)]"

definition gatewaySubmitTelemetry :: "sensors \<Rightarrow> gstate \<Rightarrow> result" where
  "gatewaySubmitTelemetry e s =
     (if deviceMode s = Gateway \<and> doTelemetry s
      then run_all
             ((\<lambda>s. Inr (debug ''submit gateway telemetry data'' None s))
              # telemetry_report e (serialNumber s) (switches s)) s
      else Inr s)"

text \<open>\<^verbatim>\<open>propValue[i]\<close> for the loop over \<^verbatim>\<open>propString\<close>.\<close>

definition prop_at :: "jsnum list \<Rightarrow> nat \<Rightarrow> jsnum" where
  "prop_at vs i = (if i < length vs then vs ! i else Undefined)"

text \<open>The appends of \<^verbatim>\<open>gatewaySubmitProperty\<close> for \<open>n\<close> properties.\<close>

definition property_report :: "int \<Rightarrow> nat \<Rightarrow> (gstate \<Rightarrow> result) list" where
  "property_report sn n =
     [\<lambda>s. gatewaySendProperty sn ''id'' (microbit_ID s) s]
     @ map (\<lambda>i s. gatewaySendProperty sn (propString s ! i) (prop_at (propValue s) i) s) [0 ..< n]
     @ [gatewaySendProperty sn ''eom'' (Num 1)]"

definition gatewaySubmitProperty :: "gstate \<Rightarrow> result" where
  "gatewaySubmitProperty s =
     (if deviceMode s = Gateway \<and> doProperty s \<and> 0 < length (propString s)
      then run_all (property_report (serialNumber s) (length (propString s))) s
      else Inr s)"

text \<open>\<^verbatim>\<open>propValue[index] = v\<close> extends the array when the index is past its end.\<close>

definition js_store :: "jsnum list \<Rightarrow> nat \<Rightarrow> jsnum \<Rightarrow> jsnum list" where
  "js_store vs i v =
     (if i < length vs then vs[i := v] else vs @ replicate (i - length vs) Undefined @ [v])"

definition addProperty :: "string \<Rightarrow> jsnum \<Rightarrow> gstate \<Rightarrow> gstate" where
  "addProperty p v s =
     (let index = indexOf_str (propString s) p
      in if index < 0
         then s\<lparr>propString := propString s @ [p], propValue := propValue s @ [v]\<rparr>
         else s\<lparr>propString := (propString s)[nat index := p],
                propValue := js_store (propValue s) (nat index) v\<rparr>)"

subsection \<open>The device registrar\<close>

definition addMicrobit :: "int \<Rightarrow> gstate \<Rightarrow> gstate" where
  "addMicrobit sn s =
     (if deviceMode s \<noteq> Gateway then s
      else
        let id = indexOf (device_registrar s) sn;
            s1 = debug (''addMicrobit('' @ show_int sn @ '')'') None s;
            s2 = debug ''id'' (Some (Num id)) s1
        in if id < 0
           then
             let s3 = debug ''id < 0'' None s2;
                 s4 = s3\<lparr>device_registrar := device_registrar s3 @ [sn],
                         device_telemetry := device_telemetry s3 @ [Some init_telemetry],
                         device_property := device_property s3 @ [init_property],
                         device_log := device_log s3 @ [init_log]\<rparr>;
                 msg = ''setId('' @ show_int (indexOf (device_registrar s4) sn) @ '','' @
                       show_int sn @ '')'';
                 s5 = debug msg None (radio_sendString msg s4)
             in setTimerGatewayRequest (Some 1000) (setTimerRadioRequest (Some 1000) s5)
           else debug ''id >= 0'' None s2)"

definition delMicrobit :: "int \<Rightarrow> gstate \<Rightarrow> gstate" where
  "delMicrobit sn s =
     (if deviceMode s \<noteq> Gateway then s
      else
        let s1 = debug ''delMicrobit() > sn'' (Some (Num sn)) s;
            id = indexOf (device_registrar s1) sn;
            s2 = debug ''delMicrobit() > id'' (Some (Num id)) s1
        in if 0 \<le> id \<and> telemetry_slot s2 (Num id) \<noteq> None
           then
             let s3 = s2\<lparr>device_telemetry := arr_set (device_telemetry s2) (Num id) None\<rparr>;
                 s4 = radio_sendString (''setId(-1,'' @ show_int sn @ '')'') s3
             in debug ''delMicrobit > radio.sendString > setId(-1,sn)'' (Some (Num sn)) s4
           else s2)"

definition setDeviceMode :: "mode \<Rightarrow> gstate \<Rightarrow> gstate" where
  "setDeviceMode m s =
     (case m of
        EndPoint \<Rightarrow> s\<lparr>deviceMode := EndPoint, identity := Num (- 1)\<rparr>
      | Gateway \<Rightarrow> addMicrobit (serialNumber s) (s\<lparr>deviceMode := Gateway, identity := Num 0\<rparr>))"

subsection \<open>The handshake: round robin with a deadline\<close>

definition request_next_mb :: "sensors \<Rightarrow> gstate \<Rightarrow> result" where
  "request_next_mb e s =
     (if deviceMode s \<noteq> Gateway then Inr s
      else
        let s1 = s\<lparr>microbit_ID := next_index (microbit_ID s) (length (device_registrar s))\<rparr>;
            s2 = debug ''request next microbit'' (Some (microbit_ID s1)) s1
        in if telemetry_slot s2 (microbit_ID s2) \<noteq> None
           then run_all
             [\<lambda>s. Inr (if js_eq (microbit_ID s) (Num (- 1))
                        then debug (''exception > device_telemetry['' @ show_num (microbit_ID s) @
                                    ''] = -1'') None s
                        else s),
              \<lambda>s. if js_eq (microbit_ID s) (Num 0)
                   then run_all
                     [\<lambda>s. Inr (setTimerGatewayRequest None (debug ''request data from gateway'' None s)),
                      gatewaySubmitTelemetry e,
                      gatewaySubmitProperty] s
                   else Inr s,
              \<lambda>s. if js_pos (microbit_ID s)
                   then
                     let s3 = debug ''request data from remote IoT microbit'' None s;
                         s4 = debug ''send token''
                                (Some (num_at (device_registrar s3) (microbit_ID s3))) s3;
                         s5 = (setTimerRadioRequest None s4)\<lparr>activeRadioRequest := True\<rparr>
                     in Inr (radio_sendValue ''token''
                               (num_at (device_registrar s5) (microbit_ID s5)) s5)
                   else Inr s] s2
           else Inr (debug (''exception > device_telemetry['' @ show_num (microbit_ID s2) @
                            ''] = null'') None s2))"

definition runGatewayOrchestrator :: "sensors \<Rightarrow> gstate \<Rightarrow> result" where
  "runGatewayOrchestrator e s =
     (if deviceMode s \<noteq> Gateway then Inr s
      else run_all
        [\<lambda>s. if activeRadioRequest s
              then (if timerRadioRequest s < clock s
                    then let s1 = s\<lparr>packet_loss := packet_loss s + 1\<rparr>
                         in request_next_mb e
                              (debug ''packet_loss'' (Some (Num (packet_loss s1))) s1)
                    else Inr s)
              else Inr s,
         \<lambda>s. if \<not> activeRadioRequest s then request_next_mb e s else Inr s] s)"

subsection \<open>The leaf's reply to a token\<close>

text \<open>One \<^verbatim>\<open>radio.sendValue\<close> and the pause after it.\<close>

definition leaf_send :: "string \<Rightarrow> jsnum \<Rightarrow> gstate \<Rightarrow> gstate" where
  "leaf_send n v s = pause delay (radio_sendValue n v s)"

definition leafSendTelemetry :: "sensors \<Rightarrow> gstate \<Rightarrow> gstate" where
  "leafSendTelemetry e s =
     (if deviceMode s = EndPoint \<and> doTelemetry s
      then
        let w = switches s
        in fold (\<lambda>(n, v). leaf_send n v)
             ([(''id'', identity s), (''sn'', Num 0), (''time'', Num 0), (''packet'', Num 0),
               (''signal'', Num 0)]
              @ (if doTemperature w then [(''temp'', Num (temperature e))] else [])
              @ (if doLightLevel w then [(''light'', Num (lightLevel e))] else [])
              @ (if doAccelerometer w
                 then [(''accX'', Num (accX e)), (''accY'', Num (accY e)),
                       (''accZ'', Num (accZ e)), (''accS'', Num (accS e))] else [])
              @ (if doMagneticForce w
                 then [(''magX'', Num (magX e)), (''magY'', Num (magY e)),
                       (''magZ'', Num (magZ e)), (''magS'', Num (magS e))] else [])
              @ (if doCompass w then [(''comp'', Num 1)] else [])
              @ (if doDigitalRead w
                 then [(''dP0'', Num (digitalP0 e)), (''dP1'', Num (digitalP1 e)),
                       (''dP2'', Num (digitalP2 e))] else [])
              @ (if doAnalogRead w
                 then [(''aP0'', Num (analogP0 e)), (''aP1'', Num (analogP1 e)),
                       (''aP2'', Num (analogP2 e))] else [])) s
      else s)"

definition leafSendProperty :: "gstate \<Rightarrow> gstate" where
  "leafSendProperty s =
     (if deviceMode s = EndPoint \<and> doProperty s
      then fold (\<lambda>i s. leaf_send (propString s ! i) (prop_at (propValue s) i) s)
             [0 ..< length (propString s)] s
      else s)"

definition leafSendEndOfMessage :: "gstate \<Rightarrow> gstate" where
  "leafSendEndOfMessage s = (if deviceMode s = EndPoint then leaf_send ''eom'' (Num 1) s else s)"

subsection \<open>Radio values received\<close>

text \<open>What \<^verbatim>\<open>radio.receivedPacket\<close> tells about the packet being handled.\<close>

record packet =
  pkt_serial :: int
  pkt_time :: int
  pkt_signal :: int

text \<open>
  The names of the chain of \<^verbatim>\<open>else if\<close> that go to the sender's telemetry buffer, in the
  order of the chain, each with the key and the number it is stored under.
\<close>

definition telemetry_field :: "string \<Rightarrow> jsnum \<Rightarrow> packet \<Rightarrow> gstate \<Rightarrow> (string \<times> jsnum) option" where
  "telemetry_field name v p s =
     (if name = ''id'' then Some (''id'', v)
      else if name = ''sn'' then Some (''sn'', Num (pkt_serial p))
      else if name = ''time'' then Some (''time'', Num (pkt_time p))
      else if name = ''packet'' then Some (''packetLoss'', Num (packet_loss s))
      else if name = ''signal'' then Some (''signalStrength'', Num (pkt_signal p))
      else if name = ''light'' then Some (''lightLevel'', v)
      else if name = ''accX'' then Some (''accelerometerX'', v)
      else if name = ''accY'' then Some (''accelerometerY'', v)
      else if name = ''accZ'' then Some (''accelerometerZ'', v)
      else if name = ''accS'' then Some (''accelerometerS'', v)
      else if name = ''magX'' then Some (''magneticForceX'', v)
      else if name = ''magY'' then Some (''magneticForceY'', v)
      else if name = ''magZ'' then Some (''magneticForceZ'', v)
      else if name = ''magS'' then Some (''magneticForceS'', v)
      else if name = ''rotP'' then Some (''rotationPitch'', v)
      else if name = ''rotR'' then Some (''rotationRoll'', v)
      else if name = ''comp'' then Some (''compass'', v)
      else if name = ''dP0'' then Some (''digitalPinP0'', v)
      else if name = ''dP1'' then Some (''digitalPinP1'', v)
      else if name = ''dP2'' then Some (''digitalPinP2'', v)
      else if name = ''aP0'' then Some (''analogPinP0'', v)
      else if name = ''aP1'' then Some (''analogPinP1'', v)
      else if name = ''aP2'' then Some (''analogPinP2'', v)
      else if name = ''temp'' then Some (''temperature'', v)
      else None)"

definition radio_gateway_part :: "string \<Rightarrow> jsnum \<Rightarrow> packet \<Rightarrow> gstate \<Rightarrow> result" where
  "radio_gateway_part name v p s =
     (if deviceMode s \<noteq> Gateway then Inr s
      else
        let s1 = debug (''radio.onReceivedValue('' @ name @ '','' @ show_num v @ '')'') None s;
            s2 = setTimerRadioRequest None s1;
            sn = pkt_serial p;
            s3 = debug ''radio.onReceivedValue() > sn'' (Some (Num sn)) s2
        in if name = ''register'' \<or> name = ''del''
           then (if name = ''register'' then Inr (addMicrobit sn s3)
                 else Inr (delMicrobit sn s3))
           else
             let id = indexOf (device_registrar s3) sn;
                 s4 = debug ''radio.onReceivedValue() > id'' (Some (Num id)) s3
             in (case telemetry_field name v p s4 of
                   Some (k, n) \<Rightarrow> gatewaySendTelemetry sn k n s4
                 | None \<Rightarrow>
                     if name = ''eom''
                     then and_then (gatewaySendTelemetry sn ''eom'' v s4)
                            (\<lambda>s. Inr (s\<lparr>activeRadioRequest := False\<rparr>))
                     else if take 2 name = ''d:'' then Inr s4
                     else gatewaySendProperty sn name v s4))"

definition radio_leaf_part :: "sensors \<Rightarrow> string \<Rightarrow> jsnum \<Rightarrow> gstate \<Rightarrow> result" where
  "radio_leaf_part e name v s =
     (if deviceMode s = EndPoint \<and> js_nonneg (identity s) \<and> name = ''token''
         \<and> js_eq v (Num (serialNumber s))
      then Inr (leafSendEndOfMessage (leafSendProperty (leafSendTelemetry e s)))
      else Inr s)"

text \<open>The handler: the part under \<^verbatim>\<open>Mode.Gateway\<close>, then the part under \<^verbatim>\<open>Mode.EndPoint\<close>.\<close>

definition radio_onReceivedValue :: "sensors \<Rightarrow> string \<Rightarrow> jsnum \<Rightarrow> packet \<Rightarrow> gstate \<Rightarrow> result" where
  "radio_onReceivedValue e name v p s =
     run_all [radio_gateway_part name v p, radio_leaf_part e name v] s"

subsection \<open>Commands\<close>

text \<open>
  \<^verbatim>\<open>parseFloat\<close> is a function of the platform: the functions below take it as the parameter
  \<open>pf\<close>. \<open>parseFloat_dec\<close> is the instance used on concrete inputs. It is \<^verbatim>\<open>parseFloat\<close> on
  the strings of decimal digits with or without a sign before them, and on the strings
  with no numeral at their start other than \<^verbatim>\<open>Infinity\<close>, where both give \<^verbatim>\<open>NaN\<close>; the
  strings with a fraction, an exponent, leading white space or text after the numeral are
  outside what it describes.
\<close>

fun dec_value :: "nat \<Rightarrow> string \<Rightarrow> nat" where
  "dec_value acc [] = acc"
| "dec_value acc (c # cs) = dec_value (10 * acc + (of_char c - 48)) cs"

definition is_digit :: "char \<Rightarrow> bool" where
  "is_digit c = (48 \<le> (of_char c :: nat) \<and> (of_char c :: nat) \<le> 57)"

definition is_numeral :: "string \<Rightarrow> bool" where
  "is_numeral t = (t \<noteq> [] \<and> list_all is_digit t)"

definition parseFloat_dec :: "string \<Rightarrow> jsnum" where
  "parseFloat_dec t =
     (if is_numeral t then Num (int (dec_value 0 t))
      else if take 1 t = ''-'' \<and> is_numeral (drop 1 t) then Num (- int (dec_value 0 (drop 1 t)))
      else if take 1 t = ''+'' \<and> is_numeral (drop 1 t) then Num (int (dec_value 0 (drop 1 t)))
      else NaN)"

text \<open>\<^verbatim>\<open>parseFloat(p)\<close> for an argument that may be \<^verbatim>\<open>undefined\<close>.\<close>

definition parse_arg :: "(string \<Rightarrow> jsnum) \<Rightarrow> string option \<Rightarrow> jsnum" where
  "parse_arg pf p = (case p of None \<Rightarrow> NaN | Some t \<Rightarrow> pf t)"

definition setIdentity :: "jsnum \<Rightarrow> jsnum \<Rightarrow> gstate \<Rightarrow> gstate" where
  "setIdentity i v s = (if js_eq v (Num (serialNumber s)) then s\<lparr>identity := i\<rparr> else s)"

text \<open>\<^verbatim>\<open>setIcon\<close> pauses before a random icon; \<^verbatim>\<open>setServo\<close> pauses after the write.\<close>

definition setIcon :: "string option \<Rightarrow> gstate \<Rightarrow> gstate" where
  "setIcon name s = (if name = Some ''random'' then pause 500 s else s)"

definition setServo :: "jsnum \<Rightarrow> gstate \<Rightarrow> gstate" where
  "setServo v s = pause 1000 s"

text \<open>
  The tests of \<^verbatim>\<open>invokeCommands\<close> compare \<^verbatim>\<open>cmd\<close> with different literals, so at most one
  of them holds. \<^verbatim>\<open>who\<close>, \<^verbatim>\<open>clear\<close>, \<^verbatim>\<open>rgb\<close>, \<^verbatim>\<open>color\<close>, \<^verbatim>\<open>brightness\<close>, \<^verbatim>\<open>digitalWrite\<close> and
  \<^verbatim>\<open>analogWrite\<close> only reach the display and the pins.
\<close>

definition invokeCommands ::
  "(string \<Rightarrow> jsnum) \<Rightarrow> string \<Rightarrow> string option \<Rightarrow> string option \<Rightarrow> string option \<Rightarrow> gstate \<Rightarrow> result" where
  "invokeCommands pf cmd p1 p2 p3 s =
     (let s1 = s\<lparr>doCommands := False\<rparr>
      in if cmd = ''setId'' then Inr (setIdentity (parse_arg pf p1) (parse_arg pf p2) s1)
         else if cmd = ''icon'' then Inr (setIcon p1 s1)
         else if cmd = ''reset'' then Inl (DeviceReset, s1)
         else if cmd = ''servo'' then Inr (setServo (parse_arg pf p1) s1)
         else Inr s1)"

text \<open>\<^verbatim>\<open>xs[i]\<close> on an array of strings.\<close>

definition str_at :: "string list \<Rightarrow> nat \<Rightarrow> string option" where
  "str_at xs i = (if i < length xs then Some (xs ! i) else None)"

text \<open>
  \<^verbatim>\<open>NAME(p1,p2,p3)\<close> taken apart and run. \<^verbatim>\<open>t1[1]\<close> is \<^verbatim>\<open>undefined\<close> when the text has no
  \<^verbatim>\<open>(\<close>, and \<^verbatim>\<open>t1[1].split\<close> throws.
\<close>

definition run_call :: "(string \<Rightarrow> jsnum) \<Rightarrow> string \<Rightarrow> gstate \<Rightarrow> result" where
  "run_call pf call s =
     (let t1 = split CHR ''('' call
      in case str_at t1 1 of
           None \<Rightarrow> Inl (TypeError, s)
         | Some args \<Rightarrow>
             let t2 = split CHR '')'' args;
                 t3 = split CHR '','' (t2 ! 0)
             in invokeCommands pf (t1 ! 0) (str_at t3 0) (str_at t3 1) (str_at t3 2) s)"

definition processC2D :: "(string \<Rightarrow> jsnum) \<Rightarrow> string \<Rightarrow> gstate \<Rightarrow> result" where
  "processC2D pf t s =
     (if t = [] then Inr s
      else
        let t0 = split CHR '':'' t
        in run_all
             [\<lambda>s. if length t0 = 1 then run_call pf t s else Inr s,
              \<lambda>s. if length t0 = 2 \<and> js_eq (pf (t0 ! 0)) (identity s)
                   then run_call pf (t0 ! 1) s else Inr s] s)"

definition radio_onReceivedString :: "(string \<Rightarrow> jsnum) \<Rightarrow> string \<Rightarrow> gstate \<Rightarrow> result" where
  "radio_onReceivedString pf t s =
     (if deviceMode s = EndPoint then processC2D pf t (s\<lparr>doCommands := True\<rparr>) else Inr s)"

subsection \<open>Lines received on the serial port\<close>

text \<open>One turn of the loop over the addresses of a line \<^verbatim>\<open>a,b,...:call\<close>.\<close>

definition relay_to :: "(string \<Rightarrow> jsnum) \<Rightarrow> string \<Rightarrow> string \<Rightarrow> gstate \<Rightarrow> result" where
  "relay_to pf call a s =
     (let cmd = a @ '':'' @ call
      in and_then (processC2D pf cmd s)
           (\<lambda>s. Inr (pause 20
                  (debug (''serial.onDataReceived() > radio.sendString('' @ cmd @ '')'') None
                     (radio_sendString cmd s)))))"

definition serial_onDataReceived :: "(string \<Rightarrow> jsnum) \<Rightarrow> string \<Rightarrow> gstate \<Rightarrow> result" where
  "serial_onDataReceived pf serialRead s =
     (if deviceMode s \<noteq> Gateway then Inr s
      else
        let s1 = debug (''serial.onDataReceived() > serialRead ='' @ serialRead) None s
        in if serialRead = [] then Inr s1
           else
             let t0 = split CHR '':'' serialRead
             in run_all
                  [\<lambda>s. if length t0 = 1
                        then and_then (processC2D pf serialRead s)
                               (\<lambda>s. Inr (debug (''serial.onDataReceived() > radio.sendString('' @
                                                 serialRead @ '')'') None
                                           (radio_sendString serialRead s)))
                        else Inr s,
                   \<lambda>s. if length t0 = 2
                        then run_all (map (relay_to pf (t0 ! 1)) (split CHR '','' (t0 ! 0))) s
                        else Inr s] s1)"

subsection \<open>The events of a node\<close>

datatype event =
    Tick sensors
  | RadioValue sensors string jsnum packet
  | RadioString string
  | SerialLine string
  | SetDeviceMode mode
  | EnableDebug bool
  | SendTelemetry bool
  | SendProperty bool
  | SetSwitches toggles
  | AddProperty string jsnum
  | Elapse nat

text \<open>
  The callbacks run one at a time, each to its end. \<open>Elapse\<close> is time passing between two of
  them; the other events are the callbacks and the exported setters.
\<close>

fun step :: "(string \<Rightarrow> jsnum) \<Rightarrow> event \<Rightarrow> gstate \<Rightarrow> result" where
  "step pf (Tick e) s = runGatewayOrchestrator e s"
| "step pf (RadioValue e name v p) s = radio_onReceivedValue e name v p s"
| "step pf (RadioString t) s = radio_onReceivedString pf t s"
| "step pf (SerialLine t) s = serial_onDataReceived pf t s"
| "step pf (SetDeviceMode m) s = Inr (setDeviceMode m s)"
| "step pf (EnableDebug b) s = Inr (s\<lparr>showDebug := b\<rparr>)"
| "step pf (SendTelemetry b) s = Inr (s\<lparr>doTelemetry := b\<rparr>)"
| "step pf (SendProperty b) s = Inr (s\<lparr>doProperty := b\<rparr>)"
| "step pf (SetSwitches w) s = Inr (s\<lparr>switches := w\<rparr>)"
| "step pf (AddProperty n v) s = Inr (addProperty n v s)"
| "step pf (Elapse d) s = Inr (s\<lparr>clock := clock s + int d\<rparr>)"

subsection \<open>The three streams side by side\<close>

datatype stream = Telemetry | Property | Log

fun gatewaySend :: "stream \<Rightarrow> int \<Rightarrow> string \<Rightarrow> jsnum \<Rightarrow> gstate \<Rightarrow> result" where
  "gatewaySend Telemetry = gatewaySendTelemetry"
| "gatewaySend Property = gatewaySendProperty"
| "gatewaySend Log = gatewaySendLog"

text \<open>The buffer of a stream that an append would read, \<open>None\<close> where the append throws.\<close>

fun buffer :: "stream \<Rightarrow> gstate \<Rightarrow> jsnum \<Rightarrow> string option" where
  "buffer Telemetry s i = telemetry_slot s i"
| "buffer Property s i = arr_get (device_property s) i"
| "buffer Log s i = arr_get (device_log s) i"

fun template :: "stream \<Rightarrow> string" where
  "template Telemetry = init_telemetry"
| "template Property = init_property"
| "template Log = init_log"

text \<open>The text an append makes of the buffer \<open>j0\<close>, before the test for \<^verbatim>\<open>eom\<close>.\<close>

fun appended :: "stream \<Rightarrow> string \<Rightarrow> string \<Rightarrow> jsnum \<Rightarrow> string" where
  "appended Telemetry j0 k num =
     (if includes_str (reopen j0) ''id'' \<or> k = ''id'' then reopen j0 @ field k num
      else reopen j0)"
| "appended Property j0 k num = reopen j0 @ field k num"
| "appended Log j0 k num = reopen j0 @ field k num"

definition closes :: "string \<Rightarrow> bool" where
  "closes j = includes_str j ''eom''"

subsection \<open>What a handler wrote, and what it left alone\<close>

definition dbg_on :: "gstate \<Rightarrow> bool" where
  "dbg_on s = (deviceMode s = Gateway \<and> showDebug s)"

definition dbg_out :: "gstate \<Rightarrow> string \<Rightarrow> jsnum option \<Rightarrow> string list" where
  "dbg_out s t v = (if dbg_on s then [debug_line t v] else [])"

definition dbg_ms :: "gstate \<Rightarrow> int" where
  "dbg_ms s = (if dbg_on s then 20 else 0)"

definition is_debug :: "string \<Rightarrow> bool" where
  \<open>is_debug l = (take 27 l = ''{"topic":"debug","debug": "'')\<close>

text \<open>
  Between \<open>s\<close> and \<open>s'\<close> the serial port got the lines \<open>ls\<close>, after debug records only, and
  no debug record when debugging is off.
\<close>

definition wrote :: "gstate \<Rightarrow> gstate \<Rightarrow> string list \<Rightarrow> bool" where
  "wrote s s' ls =
     (\<exists>ds. list_all is_debug ds \<and> (dbg_on s \<or> ds = []) \<and>
           serial_out s' = serial_out s @ ds @ ls)"

text \<open>The variables that no append to a buffer writes.\<close>

definition unwritten where
  "unwritten s = (deviceMode s, showDebug s, doTelemetry s, device_registrar s, packet_loss s,
     timerRadioRequest s, timerGatewayRequest s, activeRadioRequest s, identity s, doProperty s,
     propString s, propValue s, switches s, doCommands s, serialNumber s, radio_out s)"

text \<open>What a handler leaves of one variable, \<open>None\<close> when it ends in an exception or a reset.\<close>

definition outcome :: "(gstate \<Rightarrow> 'a) \<Rightarrow> result \<Rightarrow> 'a option" where
  "outcome f r = (case r of Inl e \<Rightarrow> None | Inr s \<Rightarrow> Some (f s))"

text \<open>The variables a handler leaves, whether it completes or stops at an exception or a reset.\<close>

definition final :: "result \<Rightarrow> gstate" where
  "final r = (case r of Inl (e, s) \<Rightarrow> s | Inr s \<Rightarrow> s)"


text \<open>A gateway just started on the device with serial number 7, debugging switched off.\<close>

definition quiet7 :: gstate where
  "quiet7 = setDeviceMode Gateway ((boot 7)\<lparr>showDebug := False\<rparr>)"

text \<open>
  The same gateway after \<^verbatim>\<open>id:3\<close>, \<^verbatim>\<open>a:1\<close>, \<^verbatim>\<open>b:2\<close> for its telemetry buffer and \<^verbatim>\<open>a:1\<close>,
  \<^verbatim>\<open>b:2\<close> for its property buffer.
\<close>

definition idab7 :: gstate where
  "idab7 = final (run_all [gatewaySendTelemetry 7 ''id'' (Num 3),
                          gatewaySendTelemetry 7 ''a'' (Num 1),
                          gatewaySendTelemetry 7 ''b'' (Num 2),
                          gatewaySendProperty 7 ''a'' (Num 1),
                          gatewaySendProperty 7 ''b'' (Num 2)] quiet7)"

subsection \<open>The registrar and the radio handler, for the statements\<close>

text \<open>The four arrays of the registrar have one length.\<close>

definition aligned :: "gstate \<Rightarrow> bool" where
  "aligned s = (length (device_telemetry s) = length (device_registrar s) \<and>
                length (device_property s) = length (device_registrar s) \<and>
                length (device_log s) = length (device_registrar s))"

text \<open>The index of the serial number \<open>x\<close> is inside the registrar and the three buffer arrays.\<close>

definition has_slots :: "gstate \<Rightarrow> int \<Rightarrow> bool" where
  "has_slots s x =
     (let i = indexOf (device_registrar s) x
      in 0 \<le> i \<and> i < int (length (device_telemetry s)) \<and>
         i < int (length (device_property s)) \<and> i < int (length (device_log s)))"

text \<open>\<^verbatim>\<open>delMicrobit\<close> finds the device, and finds it active.\<close>

definition del_hits :: "int \<Rightarrow> gstate \<Rightarrow> bool" where
  "del_hits sn s = (deviceMode s = Gateway \<and> 0 \<le> indexOf (device_registrar s) sn \<and>
     telemetry_slot s (Num (indexOf (device_registrar s) sn)) \<noteq> None)"

text \<open>The state after the debug records and the re-arming of the deadline that open the radio handler.\<close>

definition radio_opened :: "string \<Rightarrow> jsnum \<Rightarrow> packet \<Rightarrow> gstate \<Rightarrow> gstate" where
  "radio_opened name v p s =
     debug ''radio.onReceivedValue() > id''
       (Some (Num (indexOf (device_registrar s) (pkt_serial p))))
       (debug ''radio.onReceivedValue() > sn'' (Some (Num (pkt_serial p)))
          (setTimerRadioRequest None
             (debug (''radio.onReceivedValue('' @ name @ '','' @ show_num v @ '')'') None s)))"

text \<open>Of the registrar, the loss counter and the buffers, only the telemetry and property buffers at index \<open>i\<close> differ between \<open>s\<close> and \<open>s'\<close>.\<close>

definition touched_only :: "int \<Rightarrow> gstate \<Rightarrow> gstate \<Rightarrow> bool" where
  "touched_only i s s' =
     (device_registrar s' = device_registrar s \<and> packet_loss s' = packet_loss s \<and>
      device_log s' = device_log s \<and>
      length (device_telemetry s') = length (device_telemetry s) \<and>
      length (device_property s') = length (device_property s) \<and>
      (\<forall>j. j \<noteq> nat i \<longrightarrow> device_telemetry s' ! j = device_telemetry s ! j \<and>
                          device_property s' ! j = device_property s ! j))"

text \<open>
  The stream a radio value other than \<^verbatim>\<open>register\<close> and \<^verbatim>\<open>del\<close> goes to (none for the
  names that start with \<^verbatim>\<open>d:\<close>), and whether the sender has the buffer of that stream.
\<close>

definition routed :: "string \<Rightarrow> jsnum \<Rightarrow> packet \<Rightarrow> gstate \<Rightarrow> stream option" where
  "routed name v p s =
     (if telemetry_field name v p s \<noteq> None \<or> name = ''eom'' then Some Telemetry
      else if take 2 name = ''d:'' then None
      else Some Property)"

definition served :: "string \<Rightarrow> jsnum \<Rightarrow> packet \<Rightarrow> gstate \<Rightarrow> bool" where
  "served name v p s =
     (case routed name v p s of
        None \<Rightarrow> True
      | Some st \<Rightarrow> buffer st s (Num (indexOf (device_registrar s) (pkt_serial p))) \<noteq> None)"

text \<open>The registrar and the three buffer arrays.\<close>

definition arrays where
  "arrays s = (device_registrar s, device_telemetry s, device_property s, device_log s)"

text \<open>After the operation the arrays are aligned, every registered serial number has its slots, and the serial numbers registered before keep their index.\<close>

definition keeps_slots :: "gstate \<Rightarrow> gstate \<Rightarrow> bool" where
  "keeps_slots s s' =
     (aligned s' \<and> (\<forall>x \<in> set (device_registrar s'). has_slots s' x) \<and>
      (\<forall>x \<in> set (device_registrar s).
         indexOf (device_registrar s') x = indexOf (device_registrar s) x))"

text \<open>The serial number \<open>x\<close> is registered and its telemetry buffer is not \<^verbatim>\<open>null\<close>.\<close>

definition live :: "gstate \<Rightarrow> int \<Rightarrow> bool" where
  "live s x = (x \<in> set (device_registrar s) \<and>
     telemetry_slot s (Num (indexOf (device_registrar s) x)) \<noteq> None)"

text \<open>The gateway 7 after leaf 11 has registered and has then been deactivated.\<close>

definition dead11 :: gstate where
  "dead11 = delMicrobit 11 (addMicrobit 11 quiet7)"

text \<open>Sensors that all read zero.\<close>

definition calm :: sensors where
  "calm = \<lparr>temperature = 0, lightLevel = 0, accX = 0, accY = 0, accZ = 0, accS = 0,
     magX = 0, magY = 0, magZ = 0, magS = 0, rotPitch = 0, rotRoll = 0,
     digitalP0 = 0, digitalP1 = 0, digitalP2 = 0, analogP0 = 0, analogP1 = 0, analogP2 = 0\<rparr>"

text \<open>A packet from the device with serial number 12.\<close>

definition from12 :: packet where
  "from12 = \<lparr>pkt_serial = 12, pkt_time = 0, pkt_signal = 0\<rparr>"


section \<open>Properties\<close>

subsection \<open>The basic operations as record updates\<close>

lemma debug_eq:
  "debug t v s = s\<lparr>clock := clock s + dbg_ms s, serial_out := serial_out s @ dbg_out s t v\<rparr>"
  by (simp add: debug_def dbg_out_def dbg_ms_def dbg_on_def pause_def serial_writeLine_def)

lemma dbg_on_upd [simp]:
  "dbg_on (s\<lparr>clock := c\<rparr>) = dbg_on s"
  "dbg_on (s\<lparr>serial_out := so\<rparr>) = dbg_on s"
  "dbg_on (s\<lparr>radio_out := ro\<rparr>) = dbg_on s"
  "dbg_on (s\<lparr>doCommands := dc\<rparr>) = dbg_on s"
  "dbg_on (s\<lparr>microbit_ID := m\<rparr>) = dbg_on s"
  by (simp_all add: dbg_on_def)

lemmas basic_defs = debug_eq pause_def serial_writeLine_def radio_sendString_def
  radio_sendValue_def dbg_out_def dbg_ms_def

subsection \<open>Substrings\<close>

lemma take_length_eq: "(take (length p) xs = p) = (\<exists>bs. xs = p @ bs)"
proof
  assume "take (length p) xs = p"
  then have "xs = p @ drop (length p) xs"
    by (metis append_take_drop_id)
  then show "\<exists>bs. xs = p @ bs" ..
qed auto

lemma includes_str_iff: "includes_str xs p \<longleftrightarrow> (\<exists>as bs. xs = as @ p @ bs)"
proof (induction xs)
  case Nil
  show ?case by auto
next
  case (Cons c cs)
  have "(\<exists>as bs. c # cs = as @ p @ bs) \<longleftrightarrow>
        (\<exists>bs. c # cs = p @ bs) \<or> (\<exists>as bs. cs = as @ p @ bs)"
    apply (rule iffI)
     apply (clarsimp simp: Cons_eq_append_conv)
     apply (metis append_Nil)
    apply (erule disjE)
     apply (metis append_Nil)
    apply (metis append_Cons)
    done
  then show ?case
    using Cons.IH by (simp only: includes_str.simps take_length_eq)
qed

lemma includes_str_sep:
  assumes "c \<notin> set p"
  shows "includes_str (a @ c # b) p \<longleftrightarrow> includes_str a p \<or> includes_str b p"
proof
  assume "includes_str (a @ c # b) p"
  then obtain as bs where e: "a @ c # b = as @ p @ bs"
    by (auto simp: includes_str_iff)
  then consider us where "a = as @ us" "us @ c # b = p @ bs"
    | us where "a @ us = as" "c # b = us @ p @ bs"
    by (auto simp: append_eq_append_conv2)
  then show "includes_str a p \<or> includes_str b p"
  proof cases
    case 1
    from 1(2) consider vs where "us = p @ vs" | vs where "us @ vs = p" "c # b = vs @ bs"
      by (auto simp: append_eq_append_conv2)
    then show ?thesis
    proof cases
      case 1
      then show ?thesis
        using \<open>a = as @ us\<close> by (auto simp: includes_str_iff)
    next
      case 2
      show ?thesis
      proof (cases vs)
        case Nil
        then have "a = as @ p @ []"
          using 2 \<open>a = as @ us\<close> by simp
        then show ?thesis
          unfolding includes_str_iff by blast
      next
        case (Cons v vs')
        then have "c \<in> set p"
          using 2 by auto
        then show ?thesis
          using assms by simp
      qed
    qed
  next
    case 2
    show ?thesis
    proof (cases us)
      case Nil
      show ?thesis
      proof (cases p)
        case Nil
        have "a = a @ [] @ []" by simp
        then show ?thesis
          unfolding includes_str_iff Nil by blast
      next
        case (Cons x p')
        then have "c \<in> set p"
          using 2 \<open>us = []\<close> by auto
        then show ?thesis
          using assms by simp
      qed
    next
      case (Cons u us')
      then have "b = us' @ p @ bs"
        using 2 by simp
      then show ?thesis
        unfolding includes_str_iff by blast
    qed
  qed
next
  assume "includes_str a p \<or> includes_str b p"
  then show "includes_str (a @ c # b) p"
    unfolding includes_str_iff
    by (metis append.assoc append_Cons)
qed


lemma includes_str_take: "includes_str (take n xs) p \<Longrightarrow> includes_str xs p"
  unfolding includes_str_iff
  by (metis append.assoc append_take_drop_id)

lemma includes_str_set: "includes_str xs p \<Longrightarrow> set p \<subseteq> set xs"
  unfolding includes_str_iff by auto


subsection \<open>Appends to the buffers\<close>

lemma is_debug_line [simp]: "is_debug (debug_line t v)"
  by (simp add: is_debug_def debug_line_def)

lemma list_all_dbg_out [simp]: "list_all is_debug (dbg_out s t v)"
  by (simp add: dbg_out_def)

lemma dbg_out_off [simp]: "\<not> dbg_on s \<Longrightarrow> dbg_out s t v = []"
  by (simp add: dbg_out_def)

lemma telemetry_slot_SomeD:
  "telemetry_slot s (Num i) = Some j \<Longrightarrow>
     0 \<le> i \<and> i < int (length (device_telemetry s)) \<and> device_telemetry s ! nat i = Some j"
  by (auto simp: telemetry_slot_def split: if_splits option.splits)

lemma telemetry_slot_upd [simp]:
  "telemetry_slot (s\<lparr>clock := c\<rparr>) i = telemetry_slot s i"
  "telemetry_slot (s\<lparr>serial_out := so\<rparr>) i = telemetry_slot s i"
  "telemetry_slot (s\<lparr>radio_out := ro\<rparr>) i = telemetry_slot s i"
  "telemetry_slot (s\<lparr>microbit_ID := m\<rparr>) i = telemetry_slot s i"
  by (simp_all add: telemetry_slot_def)


lemma dbg_on_upd2 [simp]:
  "dbg_on (s\<lparr>device_telemetry := dt\<rparr>) = dbg_on s"
  "dbg_on (s\<lparr>device_property := dp\<rparr>) = dbg_on s"
  "dbg_on (s\<lparr>device_log := dl\<rparr>) = dbg_on s"
  "dbg_on (s\<lparr>device_registrar := dr\<rparr>) = dbg_on s"
  "dbg_on (s\<lparr>packet_loss := pl\<rparr>) = dbg_on s"
  "dbg_on (s\<lparr>timerRadioRequest := tr\<rparr>) = dbg_on s"
  "dbg_on (s\<lparr>timerGatewayRequest := tg\<rparr>) = dbg_on s"
  "dbg_on (s\<lparr>activeRadioRequest := ar\<rparr>) = dbg_on s"
  "dbg_on (s\<lparr>identity := i\<rparr>) = dbg_on s"
  "dbg_on (s\<lparr>propString := ps\<rparr>) = dbg_on s"
  "dbg_on (s\<lparr>propValue := pv\<rparr>) = dbg_on s"
  by (simp_all add: dbg_on_def)



lemma wroteI:
  "serial_out s' = serial_out s @ ds @ ls \<Longrightarrow> list_all is_debug ds \<Longrightarrow> dbg_on s \<or> ds = [] \<Longrightarrow>
   wrote s s' ls"
  unfolding wrote_def by blast

lemma dbg_out_only [simp]: "dbg_on s \<or> dbg_out s t v = []"
  by (simp add: dbg_out_def)

lemma dbg_ms_nonneg [simp]: "0 \<le> dbg_ms s"
  by (simp add: dbg_ms_def)

lemma gatewaySendTelemetry_Inr:
  fixes s :: gstate and sn :: int and k :: string and num :: jsnum and j0 :: string
  assumes g: "deviceMode s = Gateway"
    and sl: "telemetry_slot s (Num (indexOf (device_registrar s) sn)) = Some j0"
  defines "idx \<equiv> indexOf (device_registrar s) sn"
  defines "j2 \<equiv> (if includes_str (reopen j0) ''id'' \<or> k = ''id''
                  then reopen j0 @ field k num else reopen j0)"
  obtains s' where "gatewaySendTelemetry sn k num s = Inr s'"
     "unwritten s' = unwritten s" "device_property s' = device_property s"
     "device_log s' = device_log s" "microbit_ID s' = Num idx"
     "device_telemetry s' = (device_telemetry s)
        [nat idx := Some (if includes_str j2 ''eom'' then init_telemetry else j2)]"
     "wrote s s' (if includes_str j2 ''eom'' then [j2, []] else [])"
     "clock s \<le> clock s'"
proof -
  have rng: "0 \<le> idx" "idx < int (length (device_telemetry s))"
    using telemetry_slot_SomeD[OF sl[folded idx_def]] by auto
  define d1 where "d1 = dbg_out s (''ID='' @ show_int idx @ '' telemetry('' @ k @ '','' @ show_num num @ '')'') None"
  define d2 where "d2 = (if includes_str (reopen j0) ''id'' \<or> k = ''id'' then []
     else dbg_out s (''skipped: '' @ k @ '':'' @ show_num num) None)"
  define c where "c = clock s + dbg_ms s + (if includes_str (reopen j0) ''id'' \<or> k = ''id'' then 0 else dbg_ms s)
     + (if includes_str j2 ''eom'' then 2 * delay else 0)"
  define s' where "s' = s\<lparr>device_telemetry := (device_telemetry s)
        [nat idx := Some (if includes_str j2 ''eom'' then init_telemetry else j2)],
      microbit_ID := Num idx, clock := c,
      serial_out := serial_out s @ (d1 @ d2) @ (if includes_str j2 ''eom'' then [j2, []] else [])\<rparr>"
  have dbg [simp]: "dbg_out (s\<lparr>microbit_ID := m\<rparr>) t v = dbg_out s t v"
    "dbg_out (s\<lparr>microbit_ID := m, clock := c', serial_out := so\<rparr>) t v = dbg_out s t v"
    "dbg_ms (s\<lparr>microbit_ID := m\<rparr>) = dbg_ms s"
    "dbg_ms (s\<lparr>microbit_ID := m, clock := c', serial_out := so\<rparr>) = dbg_ms s" for m t v c' so
    by (simp_all add: dbg_out_def dbg_ms_def)
  have run: "gatewaySendTelemetry sn k num s = Inr s'"
    using g sl rng
    by (simp add: gatewaySendTelemetry_def Let_def debug_eq flush_def pause_def serial_writeLine_def
        idx_def[symmetric] j2_def s'_def d1_def d2_def c_def)
  have w: "wrote s s' (if includes_str j2 ''eom'' then [j2, []] else [])"
    by (rule wroteI[where ds = "d1 @ d2"]) (auto simp: s'_def d1_def d2_def)
  have "clock s \<le> clock s'"
    by (simp add: s'_def c_def delay_def)
  with run w show ?thesis
    by (intro that[of s']) (simp_all add: s'_def unwritten_def)
qed


lemma unwrittenD:
  assumes "unwritten s' = unwritten s"
  shows "deviceMode s' = deviceMode s" "showDebug s' = showDebug s" "doTelemetry s' = doTelemetry s"
    "device_registrar s' = device_registrar s" "packet_loss s' = packet_loss s"
    "timerRadioRequest s' = timerRadioRequest s" "timerGatewayRequest s' = timerGatewayRequest s"
    "activeRadioRequest s' = activeRadioRequest s" "identity s' = identity s"
    "doProperty s' = doProperty s" "propString s' = propString s" "propValue s' = propValue s"
    "switches s' = switches s" "doCommands s' = doCommands s" "serialNumber s' = serialNumber s"
    "radio_out s' = radio_out s" "dbg_on s' = dbg_on s"
  using assms by (simp_all add: unwritten_def dbg_on_def)

lemma wrote_trans:
  "wrote s s1 [] \<Longrightarrow> wrote s1 s2 ls \<Longrightarrow> dbg_on s1 = dbg_on s \<Longrightarrow> wrote s s2 ls"
  unfolding wrote_def
  apply clarify
  subgoal for ds ds'
    by (rule exI[of _ "ds @ ds'"]) auto
  done

lemma telemetry_slot_update:
  "device_telemetry s' = (device_telemetry s)[nat i := Some x] \<Longrightarrow>
   telemetry_slot s (Num i) = Some j \<Longrightarrow> telemetry_slot s' (Num i) = Some x"
  by (auto simp: telemetry_slot_def split: if_splits option.splits)


text \<open>One append to a telemetry buffer that exists, as a step from slot to slot.\<close>

lemma telemetry_step:
  fixes s :: gstate and sn :: int and k :: string and num :: jsnum and j0 :: string
  assumes g: "deviceMode s = Gateway"
    and sl: "telemetry_slot s (Num (indexOf (device_registrar s) sn)) = Some j0"
    and j2: "appended Telemetry j0 k num = j2"
  shows "\<exists>s'. gatewaySendTelemetry sn k num s = Inr s' \<and>
     deviceMode s' = Gateway \<and> device_registrar s' = device_registrar s \<and> dbg_on s' = dbg_on s \<and>
     telemetry_slot s' (Num (indexOf (device_registrar s') sn)) =
        Some (if closes j2 then init_telemetry else j2) \<and>
     wrote s s' (if closes j2 then [j2, []] else [])"
proof -
  obtain s' where s': "gatewaySendTelemetry sn k num s = Inr s'"
     "unwritten s' = unwritten s"
     "device_telemetry s' = (device_telemetry s)
        [nat (indexOf (device_registrar s) sn) := Some (if closes j2 then init_telemetry else j2)]"
     "wrote s s' (if closes j2 then [j2, []] else [])"
    using gatewaySendTelemetry_Inr[OF g sl, of k num] unfolding j2[symmetric] appended.simps closes_def
    by metis
  show ?thesis
    using s'(1) unwrittenD[OF s'(2)] g telemetry_slot_update[OF s'(3) sl] s'(4)
    by (intro exI[of _ s']) simp
qed

lemma reopen_init_telemetry: \<open>reopen init_telemetry = ''{"topic":"telemetry",''\<close>
  by (simp add: reopen_def init_telemetry_def)

lemma arr_get_SomeD:
  "arr_get xs (Num i) = Some j \<Longrightarrow> 0 \<le> i \<and> i < int (length xs) \<and> xs ! nat i = j"
  by (auto split: if_splits)

lemma arr_get_update:
  "arr_get xs (Num i) = Some j \<Longrightarrow> arr_get (xs[nat i := x]) (Num i) = Some x"
  by (auto split: if_splits)

lemma gatewaySendProperty_Inr:
  fixes s :: gstate and sn :: int and k :: string and num :: jsnum and j0 :: string
  assumes g: "deviceMode s = Gateway"
    and sl: "arr_get (device_property s) (Num (indexOf (device_registrar s) sn)) = Some j0"
  defines "idx \<equiv> indexOf (device_registrar s) sn"
  defines "j2 \<equiv> reopen j0 @ field k num"
  obtains s' where "gatewaySendProperty sn k num s = Inr s'"
     "unwritten s' = unwritten s" "device_telemetry s' = device_telemetry s"
     "device_log s' = device_log s" "microbit_ID s' = Num idx"
     "device_property s' = (device_property s)
        [nat idx := (if includes_str j2 ''eom'' then init_property else j2)]"
     "wrote s s' (if includes_str j2 ''eom'' then [j2, []] else [])"
     "clock s \<le> clock s'"
proof -
  have rng: "0 \<le> idx" "idx < int (length (device_property s))"
    using arr_get_SomeD[OF sl[folded idx_def]] by auto
  have j0: "device_property s ! nat idx = j0"
    using arr_get_SomeD[OF sl[folded idx_def]] by auto
  define d1 where "d1 = dbg_out s (''ID='' @ show_int idx @ '' sn='' @ show_int sn @
                        '' property('' @ k @ '','' @ show_num num @ '')'') None"
  define d2 where "d2 = (if includes_str j2 ''eom'' then dbg_out s ''eom property'' None else [])"
  define c where "c = clock s + dbg_ms s + (if includes_str j2 ''eom'' then dbg_ms s + 2 * delay else 0)"
  define s' where "s' = s\<lparr>device_property := (device_property s)
        [nat idx := (if includes_str j2 ''eom'' then init_property else j2)],
      microbit_ID := Num idx, clock := c,
      serial_out := serial_out s @ (d1 @ d2) @ (if includes_str j2 ''eom'' then [j2, []] else [])\<rparr>"
  have dbg [simp]: "dbg_out (s\<lparr>microbit_ID := m\<rparr>) t v = dbg_out s t v"
    "dbg_out (s\<lparr>microbit_ID := m, clock := c', serial_out := so\<rparr>) t v = dbg_out s t v"
    "dbg_ms (s\<lparr>microbit_ID := m\<rparr>) = dbg_ms s"
    "dbg_ms (s\<lparr>microbit_ID := m, clock := c', serial_out := so\<rparr>) = dbg_ms s" for m t v c' so
    by (simp_all add: dbg_out_def dbg_ms_def)
  have run: "gatewaySendProperty sn k num s = Inr s'"
    using g rng j0
    by (simp add: gatewaySendProperty_def Let_def debug_eq flush_def pause_def serial_writeLine_def
        idx_def[symmetric] j2_def s'_def d1_def d2_def c_def)
  have w: "wrote s s' (if includes_str j2 ''eom'' then [j2, []] else [])"
    by (rule wroteI[where ds = "d1 @ d2"]) (auto simp: s'_def d1_def d2_def)
  have "clock s \<le> clock s'"
    by (simp add: s'_def c_def delay_def)
  with run w show ?thesis
    by (intro that[of s']) (simp_all add: s'_def unwritten_def)
qed

lemma gatewaySendLog_Inr:
  fixes s :: gstate and sn :: int and k :: string and num :: jsnum and j0 :: string
  assumes g: "deviceMode s = Gateway"
    and sl: "arr_get (device_log s) (Num (indexOf (device_registrar s) sn)) = Some j0"
  defines "idx \<equiv> indexOf (device_registrar s) sn"
  defines "j2 \<equiv> reopen j0 @ field k num"
  obtains s' where "gatewaySendLog sn k num s = Inr s'"
     "unwritten s' = unwritten s" "device_telemetry s' = device_telemetry s"
     "device_property s' = device_property s" "microbit_ID s' = Num idx"
     "device_log s' = (device_log s)
        [nat idx := (if includes_str j2 ''eom'' then init_log else j2)]"
     "wrote s s' (if includes_str j2 ''eom'' then [j2, []] else [])"
     "clock s \<le> clock s'"
proof -
  have rng: "0 \<le> idx" "idx < int (length (device_log s))"
    using arr_get_SomeD[OF sl[folded idx_def]] by auto
  have j0: "device_log s ! nat idx = j0"
    using arr_get_SomeD[OF sl[folded idx_def]] by auto
  define d1 where "d1 = dbg_out s (''ID='' @ show_int idx @ '' sn='' @ show_int sn @
                        '' log('' @ k @ '','' @ show_num num @ '')'') None"
  define d2 where "d2 = (if includes_str j2 ''eom'' then dbg_out s ''eom log'' None else [])"
  define c where "c = clock s + dbg_ms s + (if includes_str j2 ''eom'' then dbg_ms s + 2 * delay else 0)"
  define s' where "s' = s\<lparr>device_log := (device_log s)
        [nat idx := (if includes_str j2 ''eom'' then init_log else j2)],
      microbit_ID := Num idx, clock := c,
      serial_out := serial_out s @ (d1 @ d2) @ (if includes_str j2 ''eom'' then [j2, []] else [])\<rparr>"
  have dbg [simp]: "dbg_out (s\<lparr>microbit_ID := m\<rparr>) t v = dbg_out s t v"
    "dbg_out (s\<lparr>microbit_ID := m, clock := c', serial_out := so\<rparr>) t v = dbg_out s t v"
    "dbg_ms (s\<lparr>microbit_ID := m\<rparr>) = dbg_ms s"
    "dbg_ms (s\<lparr>microbit_ID := m, clock := c', serial_out := so\<rparr>) = dbg_ms s" for m t v c' so
    by (simp_all add: dbg_out_def dbg_ms_def)
  have run: "gatewaySendLog sn k num s = Inr s'"
    using g rng j0
    by (simp add: gatewaySendLog_def Let_def debug_eq flush_def pause_def serial_writeLine_def
        idx_def[symmetric] j2_def s'_def d1_def d2_def c_def)
  have w: "wrote s s' (if includes_str j2 ''eom'' then [j2, []] else [])"
    by (rule wroteI[where ds = "d1 @ d2"]) (auto simp: s'_def d1_def d2_def)
  have "clock s \<le> clock s'"
    by (simp add: s'_def c_def delay_def)
  with run w show ?thesis
    by (intro that[of s']) (simp_all add: s'_def unwritten_def)
qed

lemma property_step:
  fixes s :: gstate and sn :: int and k :: string and num :: jsnum and j0 :: string
  assumes g: "deviceMode s = Gateway"
    and sl: "arr_get (device_property s) (Num (indexOf (device_registrar s) sn)) = Some j0"
    and j2: "reopen j0 @ field k num = j2"
  shows "\<exists>s'. gatewaySendProperty sn k num s = Inr s' \<and>
     deviceMode s' = Gateway \<and> device_registrar s' = device_registrar s \<and> dbg_on s' = dbg_on s \<and>
     arr_get (device_property s') (Num (indexOf (device_registrar s') sn)) =
        Some (if closes j2 then init_property else j2) \<and>
     wrote s s' (if closes j2 then [j2, []] else [])"
proof -
  obtain s' where s': "gatewaySendProperty sn k num s = Inr s'"
     "unwritten s' = unwritten s"
     "device_property s' = (device_property s)
        [nat (indexOf (device_registrar s) sn) := (if closes j2 then init_property else j2)]"
     "wrote s s' (if closes j2 then [j2, []] else [])"
    using gatewaySendProperty_Inr[OF g sl, of k num] unfolding j2[symmetric] closes_def
    by metis
  show ?thesis
    using s'(1) unwrittenD[OF s'(2)] g arr_get_update[OF sl] s'(3,4)
    by (intro exI[of _ s']) simp
qed

lemma log_step:
  fixes s :: gstate and sn :: int and k :: string and num :: jsnum and j0 :: string
  assumes g: "deviceMode s = Gateway"
    and sl: "arr_get (device_log s) (Num (indexOf (device_registrar s) sn)) = Some j0"
    and j2: "reopen j0 @ field k num = j2"
  shows "\<exists>s'. gatewaySendLog sn k num s = Inr s' \<and>
     deviceMode s' = Gateway \<and> device_registrar s' = device_registrar s \<and> dbg_on s' = dbg_on s \<and>
     arr_get (device_log s') (Num (indexOf (device_registrar s') sn)) =
        Some (if closes j2 then init_log else j2) \<and>
     wrote s s' (if closes j2 then [j2, []] else [])"
proof -
  obtain s' where s': "gatewaySendLog sn k num s = Inr s'"
     "unwritten s' = unwritten s"
     "device_log s' = (device_log s)
        [nat (indexOf (device_registrar s) sn) := (if closes j2 then init_log else j2)]"
     "wrote s s' (if closes j2 then [j2, []] else [])"
    using gatewaySendLog_Inr[OF g sl, of k num] unfolding j2[symmetric] closes_def
    by metis
  show ?thesis
    using s'(1) unwrittenD[OF s'(2)] g arr_get_update[OF sl] s'(3,4)
    by (intro exI[of _ s']) simp
qed


subsection \<open>The identity guard of the telemetry stream\<close>

lemma quiet7_fields:
  "deviceMode quiet7 = Gateway" "device_registrar quiet7 = [7]"
  "device_telemetry quiet7 = [Some init_telemetry]" "device_property quiet7 = [init_property]"
  "device_log quiet7 = [init_log]" "serial_out quiet7 = []" "showDebug quiet7 = False"
  "radio_out quiet7 = [SendString ''setId(0,7)'']" "microbit_ID quiet7 = Num 0"
  "activeRadioRequest quiet7 = False" "packet_loss quiet7 = 0"
  by (simp_all add: quiet7_def setDeviceMode_def addMicrobit_def boot_def Let_def debug_def
      radio_sendString_def setTimerRadioRequest_def setTimerGatewayRequest_def
      show_int_def digits.simps)

lemma quiet7_slot:
  "telemetry_slot quiet7 (Num (indexOf (device_registrar quiet7) 7)) = Some init_telemetry"
  by (simp add: telemetry_slot_def quiet7_fields)

text \<open>
  C4. On a gateway whose telemetry buffer for the sender is the empty template: appending
  \<^verbatim>\<open>temp:21\<close> completes, writes no line and drops the field. What it leaves is the template
  with its closing brace already exchanged for the comma of the next field, which is the
  first thing every append does to a buffer: every later append makes of it what it makes
  of the template. Appending \<^verbatim>\<open>id:3\<close>, \<^verbatim>\<open>temp:21\<close>, \<^verbatim>\<open>eom:1\<close> completes, writes exactly the
  line \<^verbatim>\<open>{"topic":"telemetry","id":3,"temp":21,"eom":1}\<close> and the empty line after it, and
  leaves the empty template.
\<close>

theorem telemetry_identity_guard:
  assumes g: "deviceMode s = Gateway"
    and sl: "telemetry_slot s (Num (indexOf (device_registrar s) sn)) = Some init_telemetry"
  shows \<open>(\<exists>s'. gatewaySendTelemetry sn ''temp'' (Num 21) s = Inr s' \<and> wrote s s' [] \<and>
            telemetry_slot s' (Num (indexOf (device_registrar s) sn)) = Some ''{"topic":"telemetry",'' \<and>
            (\<forall>k n. appended Telemetry ''{"topic":"telemetry",'' k n =
                   appended Telemetry init_telemetry k n)) \<and>
         (\<exists>s'. run_all [gatewaySendTelemetry sn ''id'' (Num 3),
                          gatewaySendTelemetry sn ''temp'' (Num 21),
                          gatewaySendTelemetry sn ''eom'' (Num 1)] s = Inr s' \<and>
            wrote s s' [''{"topic":"telemetry","id":3,"temp":21,"eom":1}'', []] \<and>
            telemetry_slot s' (Num (indexOf (device_registrar s) sn)) = Some init_telemetry)\<close>
proof
  have a: \<open>appended Telemetry init_telemetry ''temp'' (Num 21) = ''{"topic":"telemetry",''\<close>
    by (simp add: appended.simps reopen_init_telemetry)
  have na: \<open>\<not> closes ''{"topic":"telemetry",''\<close>
    by (simp add: closes_def)
  have r: \<open>reopen ''{"topic":"telemetry",'' = reopen init_telemetry\<close>
    by (simp add: reopen_def init_telemetry_def)
  have e: \<open>\<forall>k n. appended Telemetry ''{"topic":"telemetry",'' k n =
                   appended Telemetry init_telemetry k n\<close>
    by (simp only: appended.simps r) (rule allI, rule allI, rule refl)
  obtain s' where \<open>gatewaySendTelemetry sn ''temp'' (Num 21) s = Inr s'\<close> \<open>wrote s s' []\<close>
    \<open>telemetry_slot s' (Num (indexOf (device_registrar s) sn)) = Some ''{"topic":"telemetry",''\<close>
    using telemetry_step[OF g sl a] na by auto
  then show \<open>\<exists>s'. gatewaySendTelemetry sn ''temp'' (Num 21) s = Inr s' \<and> wrote s s' [] \<and>
            telemetry_slot s' (Num (indexOf (device_registrar s) sn)) = Some ''{"topic":"telemetry",'' \<and>
            (\<forall>k n. appended Telemetry ''{"topic":"telemetry",'' k n =
                   appended Telemetry init_telemetry k n)\<close>
    using e by blast
next
  have a1: \<open>appended Telemetry init_telemetry ''id'' (Num 3) = ''{"topic":"telemetry","id":3}''\<close>
    by (simp add: appended.simps reopen_init_telemetry field_def show_int_def digits.simps)
  have a2: \<open>appended Telemetry ''{"topic":"telemetry","id":3}'' ''temp'' (Num 21) =
      ''{"topic":"telemetry","id":3,"temp":21}''\<close>
    by (simp add: appended.simps reopen_def field_def show_int_def digits.simps)
  have a3: \<open>appended Telemetry ''{"topic":"telemetry","id":3,"temp":21}'' ''eom'' (Num 1) =
      ''{"topic":"telemetry","id":3,"temp":21,"eom":1}''\<close>
    by (simp add: appended.simps reopen_def field_def show_int_def digits.simps)
  have n1: \<open>\<not> closes ''{"topic":"telemetry","id":3}''\<close>
    and n2: \<open>\<not> closes ''{"topic":"telemetry","id":3,"temp":21}''\<close>
    and n3: \<open>closes ''{"topic":"telemetry","id":3,"temp":21,"eom":1}''\<close>
    by (simp_all add: closes_def)
  obtain s1 where s1: "gatewaySendTelemetry sn ''id'' (Num 3) s = Inr s1"
     "deviceMode s1 = Gateway" "device_registrar s1 = device_registrar s" "dbg_on s1 = dbg_on s"
     \<open>telemetry_slot s1 (Num (indexOf (device_registrar s1) sn)) = Some ''{"topic":"telemetry","id":3}''\<close>
     "wrote s s1 []"
    using telemetry_step[OF g sl a1] n1 by auto
  obtain s2 where s2: "gatewaySendTelemetry sn ''temp'' (Num 21) s1 = Inr s2"
     "deviceMode s2 = Gateway" "device_registrar s2 = device_registrar s1" "dbg_on s2 = dbg_on s1"
     \<open>telemetry_slot s2 (Num (indexOf (device_registrar s2) sn)) = Some ''{"topic":"telemetry","id":3,"temp":21}''\<close>
     "wrote s1 s2 []"
    using telemetry_step[OF s1(2) s1(5) a2] n2 by auto
  obtain s3 where s3: "gatewaySendTelemetry sn ''eom'' (Num 1) s2 = Inr s3"
     "device_registrar s3 = device_registrar s2"
     \<open>telemetry_slot s3 (Num (indexOf (device_registrar s3) sn)) = Some init_telemetry\<close>
     \<open>wrote s2 s3 [''{"topic":"telemetry","id":3,"temp":21,"eom":1}'', []]\<close>
    using telemetry_step[OF s2(2) s2(5) a3] n3 by auto
  have "run_all [gatewaySendTelemetry sn ''id'' (Num 3),
                          gatewaySendTelemetry sn ''temp'' (Num 21),
                          gatewaySendTelemetry sn ''eom'' (Num 1)] s = Inr s3"
    by (simp add: and_then_def s1(1) s2(1) s3(1))
  moreover have \<open>wrote s s3 [''{"topic":"telemetry","id":3,"temp":21,"eom":1}'', []]\<close>
    using wrote_trans[OF wrote_trans[OF s1(6) s2(6) s1(4)] s3(4)] s2(4) s1(4) by simp
  ultimately show \<open>\<exists>s'. run_all [gatewaySendTelemetry sn ''id'' (Num 3),
                          gatewaySendTelemetry sn ''temp'' (Num 21),
                          gatewaySendTelemetry sn ''eom'' (Num 1)] s = Inr s' \<and>
            wrote s s' [''{"topic":"telemetry","id":3,"temp":21,"eom":1}'', []] \<and>
            telemetry_slot s' (Num (indexOf (device_registrar s) sn)) = Some init_telemetry\<close>
    using s3(2,3) s2(3) s1(3) by auto
qed



theorem telemetry_identity_guard_witness:
  \<open>deviceMode quiet7 = Gateway \<and>
   telemetry_slot quiet7 (Num (indexOf (device_registrar quiet7) 7)) = Some init_telemetry \<and>
   (\<exists>s'. run_all [gatewaySendTelemetry 7 ''id'' (Num 3),
                   gatewaySendTelemetry 7 ''temp'' (Num 21),
                   gatewaySendTelemetry 7 ''eom'' (Num 1)] quiet7 = Inr s' \<and>
      wrote quiet7 s' [''{"topic":"telemetry","id":3,"temp":21,"eom":1}'', []])\<close>
  using telemetry_identity_guard[OF quiet7_fields(1) quiet7_slot] quiet7_fields(1) quiet7_slot
  by blast

subsection \<open>Closing a buffer\<close>

lemma wrote_quiet: "wrote s s' ls \<Longrightarrow> \<not> dbg_on s \<Longrightarrow> serial_out s' = serial_out s @ ls"
  by (auto simp: wrote_def)

lemma idab7_fields:
  "deviceMode idab7 = Gateway" "device_registrar idab7 = [7]"
  \<open>device_telemetry idab7 = [Some ''{"topic":"telemetry","id":3,"a":1,"b":2}'']\<close>
  \<open>device_property idab7 = [''{"topic":"property","a":1,"b":2}'']\<close>
  by code_simp+

lemma quiet7_quiet: "\<not> dbg_on quiet7"
  by (simp add: dbg_on_def quiet7_fields)

text \<open>Three appends to the sender's telemetry buffer, none of which closes it.\<close>

lemma three_appends:
  assumes g: "deviceMode s = Gateway"
    and sl: "telemetry_slot s (Num (indexOf (device_registrar s) sn)) = Some j0"
    and a1: "appended Telemetry j0 k1 n1 = j1" and c1: "\<not> closes j1"
    and a2: "appended Telemetry j1 k2 n2 = j2" and c2: "\<not> closes j2"
    and a3: "appended Telemetry j2 k3 n3 = j3" and c3: "\<not> closes j3"
  shows "\<exists>s'. run_all [gatewaySendTelemetry sn k1 n1, gatewaySendTelemetry sn k2 n2,
                        gatewaySendTelemetry sn k3 n3] s = Inr s' \<and>
     deviceMode s' = Gateway \<and> device_registrar s' = device_registrar s \<and> dbg_on s' = dbg_on s \<and>
     telemetry_slot s' (Num (indexOf (device_registrar s) sn)) = Some j3 \<and> wrote s s' []"
proof -
  obtain s1 where s1: "gatewaySendTelemetry sn k1 n1 s = Inr s1"
     "deviceMode s1 = Gateway" "device_registrar s1 = device_registrar s" "dbg_on s1 = dbg_on s"
     "telemetry_slot s1 (Num (indexOf (device_registrar s1) sn)) = Some j1" "wrote s s1 []"
    using telemetry_step[OF g sl a1] c1 by auto
  obtain s2 where s2: "gatewaySendTelemetry sn k2 n2 s1 = Inr s2"
     "deviceMode s2 = Gateway" "device_registrar s2 = device_registrar s1" "dbg_on s2 = dbg_on s1"
     "telemetry_slot s2 (Num (indexOf (device_registrar s2) sn)) = Some j2" "wrote s1 s2 []"
    using telemetry_step[OF s1(2) s1(5) a2] c2 by auto
  obtain s3 where s3: "gatewaySendTelemetry sn k3 n3 s2 = Inr s3"
     "deviceMode s3 = Gateway" "device_registrar s3 = device_registrar s2" "dbg_on s3 = dbg_on s2"
     "telemetry_slot s3 (Num (indexOf (device_registrar s3) sn)) = Some j3" "wrote s2 s3 []"
    using telemetry_step[OF s2(2) s2(5) a3] c3 by auto
  have "run_all [gatewaySendTelemetry sn k1 n1, gatewaySendTelemetry sn k2 n2,
                 gatewaySendTelemetry sn k3 n3] s = Inr s3"
    by (simp add: and_then_def s1(1) s2(1) s3(1))
  moreover have "wrote s s3 []"
    using wrote_trans[OF wrote_trans[OF s1(6) s2(6) s1(4)] s3(6)] s2(4) s1(4) by simp
  ultimately show ?thesis
    using s1(3,4) s2(3,4) s3(2,3,4,5) by (intro exI[of _ s3]) simp
qed

text \<open>
  C6, as the claim has it, fails. A telemetry buffer takes a field only once it holds \<^verbatim>\<open>id\<close>,
  so \<^verbatim>\<open>a:1\<close> and \<^verbatim>\<open>b:2\<close> alone never get into one, and neither does the terminator after
  them: on the gateway just started, \<^verbatim>\<open>a:1\<close>, \<^verbatim>\<open>b:2\<close> and \<^verbatim>\<open>eom:1\<close> for the empty template
  complete, write no line and leave the template without any of the three.
\<close>

theorem buffer_closure_counterexample:
  \<open>outcome serial_out (run_all [gatewaySendTelemetry 7 ''a'' (Num 1),
                                gatewaySendTelemetry 7 ''b'' (Num 2),
                                gatewaySendTelemetry 7 ''eom'' (Num 1)] quiet7) = Some [] \<and>
   outcome device_telemetry (run_all [gatewaySendTelemetry 7 ''a'' (Num 1),
                                gatewaySendTelemetry 7 ''b'' (Num 2),
                                gatewaySendTelemetry 7 ''eom'' (Num 1)] quiet7) =
     Some [Some ''{"topic":"telemetry",'']\<close>
  by code_simp

text \<open>
  C6, amended. On a gateway, appending \<^verbatim>\<open>eom:1\<close> to the sender's telemetry buffer that holds
  \<^verbatim>\<open>id:3\<close>, \<^verbatim>\<open>a:1\<close>, \<^verbatim>\<open>b:2\<close> completes, writes exactly the line
  \<^verbatim>\<open>{"topic":"telemetry","id":3,"a":1,"b":2,"eom":1}\<close> and the empty line after it, and leaves
  the empty template; the append of \<^verbatim>\<open>id:4\<close> that follows leaves \<^verbatim>\<open>{"topic":"telemetry","id":4}\<close>.
  Appending \<^verbatim>\<open>a:1\<close>, \<^verbatim>\<open>b:2\<close>, \<^verbatim>\<open>eom:1\<close> to a telemetry buffer that is the empty template
  completes, writes nothing and leaves the template, reopened, with none of the three. On the
  property stream, which has no guard, a buffer with \<^verbatim>\<open>a:1\<close> and \<^verbatim>\<open>b:2\<close> alone is written
  with the terminator as one line and reset, and the next append starts a fresh object.
\<close>

theorem buffer_closure:
  assumes g: "deviceMode s = Gateway"
  shows \<open>(telemetry_slot s (Num (indexOf (device_registrar s) sn)) =
             Some ''{"topic":"telemetry","id":3,"a":1,"b":2}'' \<longrightarrow>
          (\<exists>s'. gatewaySendTelemetry sn ''eom'' (Num 1) s = Inr s' \<and>
             wrote s s' [''{"topic":"telemetry","id":3,"a":1,"b":2,"eom":1}'', []] \<and>
             telemetry_slot s' (Num (indexOf (device_registrar s) sn)) = Some init_telemetry \<and>
             (\<exists>s''. gatewaySendTelemetry sn ''id'' (Num 4) s' = Inr s'' \<and> wrote s' s'' [] \<and>
                telemetry_slot s'' (Num (indexOf (device_registrar s) sn)) =
                  Some ''{"topic":"telemetry","id":4}''))) \<and>
         (telemetry_slot s (Num (indexOf (device_registrar s) sn)) = Some init_telemetry \<longrightarrow>
          (\<exists>s'. run_all [gatewaySendTelemetry sn ''a'' (Num 1),
                          gatewaySendTelemetry sn ''b'' (Num 2),
                          gatewaySendTelemetry sn ''eom'' (Num 1)] s = Inr s' \<and>
             wrote s s' [] \<and>
             telemetry_slot s' (Num (indexOf (device_registrar s) sn)) =
               Some ''{"topic":"telemetry",'')) \<and>
         (arr_get (device_property s) (Num (indexOf (device_registrar s) sn)) =
             Some ''{"topic":"property","a":1,"b":2}'' \<longrightarrow>
          (\<exists>s'. gatewaySendProperty sn ''eom'' (Num 1) s = Inr s' \<and>
             wrote s s' [''{"topic":"property","a":1,"b":2,"eom":1}'', []] \<and>
             arr_get (device_property s') (Num (indexOf (device_registrar s) sn)) = Some init_property \<and>
             (\<exists>s''. gatewaySendProperty sn ''c'' (Num 3) s' = Inr s'' \<and> wrote s' s'' [] \<and>
                arr_get (device_property s'') (Num (indexOf (device_registrar s) sn)) =
                  Some ''{"topic":"property","c":3}'')))\<close>
proof (intro conjI impI)
  assume sl: \<open>telemetry_slot s (Num (indexOf (device_registrar s) sn)) =
             Some ''{"topic":"telemetry","id":3,"a":1,"b":2}''\<close>
  have a1: \<open>appended Telemetry ''{"topic":"telemetry","id":3,"a":1,"b":2}'' ''eom'' (Num 1) =
      ''{"topic":"telemetry","id":3,"a":1,"b":2,"eom":1}''\<close>
    by (simp add: reopen_def field_def show_int_def digits.simps)
  have a2: \<open>appended Telemetry init_telemetry ''id'' (Num 4) = ''{"topic":"telemetry","id":4}''\<close>
    by (simp add: reopen_init_telemetry field_def show_int_def digits.simps)
  have c1: \<open>closes ''{"topic":"telemetry","id":3,"a":1,"b":2,"eom":1}''\<close>
    and c2: \<open>\<not> closes ''{"topic":"telemetry","id":4}''\<close>
    by (simp_all add: closes_def)
  obtain s1 where s1: "gatewaySendTelemetry sn ''eom'' (Num 1) s = Inr s1"
     "deviceMode s1 = Gateway" "device_registrar s1 = device_registrar s"
     \<open>telemetry_slot s1 (Num (indexOf (device_registrar s1) sn)) = Some init_telemetry\<close>
     \<open>wrote s s1 [''{"topic":"telemetry","id":3,"a":1,"b":2,"eom":1}'', []]\<close>
    using telemetry_step[OF g sl a1] c1 by auto
  obtain s2 where s2: "gatewaySendTelemetry sn ''id'' (Num 4) s1 = Inr s2"
     "device_registrar s2 = device_registrar s1"
     \<open>telemetry_slot s2 (Num (indexOf (device_registrar s2) sn)) = Some ''{"topic":"telemetry","id":4}''\<close>
     \<open>wrote s1 s2 []\<close>
    using telemetry_step[OF s1(2) s1(4) a2] c2 by auto
  show \<open>\<exists>s'. gatewaySendTelemetry sn ''eom'' (Num 1) s = Inr s' \<and>
             wrote s s' [''{"topic":"telemetry","id":3,"a":1,"b":2,"eom":1}'', []] \<and>
             telemetry_slot s' (Num (indexOf (device_registrar s) sn)) = Some init_telemetry \<and>
             (\<exists>s''. gatewaySendTelemetry sn ''id'' (Num 4) s' = Inr s'' \<and> wrote s' s'' [] \<and>
                telemetry_slot s'' (Num (indexOf (device_registrar s) sn)) =
                  Some ''{"topic":"telemetry","id":4}'')\<close>
    using s1 s2 by (intro exI[of _ s1] conjI exI[of _ s2]) simp_all
next
  assume sl: "telemetry_slot s (Num (indexOf (device_registrar s) sn)) = Some init_telemetry"
  have a: \<open>appended Telemetry init_telemetry ''a'' (Num 1) = ''{"topic":"telemetry",''\<close>
    \<open>appended Telemetry ''{"topic":"telemetry",'' ''b'' (Num 2) = ''{"topic":"telemetry",''\<close>
    \<open>appended Telemetry ''{"topic":"telemetry",'' ''eom'' (Num 1) = ''{"topic":"telemetry",''\<close>
    by (simp_all add: reopen_def init_telemetry_def)
  have c: \<open>\<not> closes ''{"topic":"telemetry",''\<close>
    by (simp add: closes_def)
  show \<open>\<exists>s'. run_all [gatewaySendTelemetry sn ''a'' (Num 1),
                          gatewaySendTelemetry sn ''b'' (Num 2),
                          gatewaySendTelemetry sn ''eom'' (Num 1)] s = Inr s' \<and>
             wrote s s' [] \<and>
             telemetry_slot s' (Num (indexOf (device_registrar s) sn)) =
               Some ''{"topic":"telemetry",''\<close>
    using three_appends[OF g sl a(1) c a(2) c a(3) c] by blast
next
  assume sl: \<open>arr_get (device_property s) (Num (indexOf (device_registrar s) sn)) =
             Some ''{"topic":"property","a":1,"b":2}''\<close>
  have a1: \<open>reopen ''{"topic":"property","a":1,"b":2}'' @ field ''eom'' (Num 1) =
      ''{"topic":"property","a":1,"b":2,"eom":1}''\<close>
    by (simp add: reopen_def field_def show_int_def digits.simps)
  have a2: \<open>reopen init_property @ field ''c'' (Num 3) = ''{"topic":"property","c":3}''\<close>
    by (simp add: reopen_def init_property_def field_def show_int_def digits.simps)
  have c1: \<open>closes ''{"topic":"property","a":1,"b":2,"eom":1}''\<close>
    and c2: \<open>\<not> closes ''{"topic":"property","c":3}''\<close>
    by (simp_all add: closes_def)
  obtain s1 where s1: "gatewaySendProperty sn ''eom'' (Num 1) s = Inr s1"
     "deviceMode s1 = Gateway" "device_registrar s1 = device_registrar s"
     \<open>arr_get (device_property s1) (Num (indexOf (device_registrar s1) sn)) = Some init_property\<close>
     \<open>wrote s s1 [''{"topic":"property","a":1,"b":2,"eom":1}'', []]\<close>
    using property_step[OF g sl a1] c1 by (auto simp del: arr_get.simps)
  obtain s2 where s2: "gatewaySendProperty sn ''c'' (Num 3) s1 = Inr s2"
     "device_registrar s2 = device_registrar s1"
     \<open>arr_get (device_property s2) (Num (indexOf (device_registrar s2) sn)) = Some ''{"topic":"property","c":3}''\<close>
     \<open>wrote s1 s2 []\<close>
    using property_step[OF s1(2) s1(4) a2] c2 by (auto simp del: arr_get.simps)
  show \<open>\<exists>s'. gatewaySendProperty sn ''eom'' (Num 1) s = Inr s' \<and>
             wrote s s' [''{"topic":"property","a":1,"b":2,"eom":1}'', []] \<and>
             arr_get (device_property s') (Num (indexOf (device_registrar s) sn)) = Some init_property \<and>
             (\<exists>s''. gatewaySendProperty sn ''c'' (Num 3) s' = Inr s'' \<and> wrote s' s'' [] \<and>
                arr_get (device_property s'') (Num (indexOf (device_registrar s) sn)) =
                  Some ''{"topic":"property","c":3}'')\<close>
    using s1 s2 by (intro exI[of _ s1] conjI exI[of _ s2]) simp_all
qed


theorem buffer_closure_witness:
  \<open>deviceMode idab7 = Gateway \<and>
   telemetry_slot idab7 (Num (indexOf (device_registrar idab7) 7)) =
     Some ''{"topic":"telemetry","id":3,"a":1,"b":2}'' \<and>
   arr_get (device_property idab7) (Num (indexOf (device_registrar idab7) 7)) =
     Some ''{"topic":"property","a":1,"b":2}'' \<and>
   (\<exists>s'. gatewaySendTelemetry 7 ''eom'' (Num 1) idab7 = Inr s' \<and>
      wrote idab7 s' [''{"topic":"telemetry","id":3,"a":1,"b":2,"eom":1}'', []]) \<and>
   (\<exists>s'. gatewaySendProperty 7 ''eom'' (Num 1) idab7 = Inr s' \<and>
      wrote idab7 s' [''{"topic":"property","a":1,"b":2,"eom":1}'', []]) \<and>
   deviceMode quiet7 = Gateway \<and>
   telemetry_slot quiet7 (Num (indexOf (device_registrar quiet7) 7)) = Some init_telemetry \<and>
   (\<exists>s'. run_all [gatewaySendTelemetry 7 ''a'' (Num 1),
                   gatewaySendTelemetry 7 ''b'' (Num 2),
                   gatewaySendTelemetry 7 ''eom'' (Num 1)] quiet7 = Inr s' \<and>
      wrote quiet7 s' [])\<close>
proof -
  have sl: \<open>telemetry_slot idab7 (Num (indexOf (device_registrar idab7) 7)) =
     Some ''{"topic":"telemetry","id":3,"a":1,"b":2}''\<close>
    by (simp add: telemetry_slot_def idab7_fields)
  have pl: \<open>arr_get (device_property idab7) (Num (indexOf (device_registrar idab7) 7)) =
     Some ''{"topic":"property","a":1,"b":2}''\<close>
    by (simp add: idab7_fields)
  have i: \<open>(\<exists>s'. gatewaySendTelemetry 7 ''eom'' (Num 1) idab7 = Inr s' \<and>
      wrote idab7 s' [''{"topic":"telemetry","id":3,"a":1,"b":2,"eom":1}'', []]) \<and>
   (\<exists>s'. gatewaySendProperty 7 ''eom'' (Num 1) idab7 = Inr s' \<and>
      wrote idab7 s' [''{"topic":"property","a":1,"b":2,"eom":1}'', []])\<close>
    using buffer_closure[OF idab7_fields(1), of 7] sl pl
    by (simp only: simp_thms) blast
  have q: \<open>\<exists>s'. run_all [gatewaySendTelemetry 7 ''a'' (Num 1),
                   gatewaySendTelemetry 7 ''b'' (Num 2),
                   gatewaySendTelemetry 7 ''eom'' (Num 1)] quiet7 = Inr s' \<and>
      wrote quiet7 s' []\<close>
    using buffer_closure[OF quiet7_fields(1), of 7] quiet7_slot by blast
  show ?thesis
    using i q sl pl idab7_fields(1) quiet7_fields(1) quiet7_slot by blast
qed

subsection \<open>Flushing on the terminator\<close>

lemma digit_char: "n < 10 \<Longrightarrow> ''0123456789'' ! n \<in> set ''0123456789''"
  by (rule nth_mem) simp

lemma digits_chars: "set (digits n) \<subseteq> set ''0123456789''"
proof (induction n rule: digits.induct)
  case (1 n)
  show ?case
  proof (cases "n < 10")
    case True
    then show ?thesis
      using digit_char[of n] by (subst digits.simps) simp
  next
    case False
    have "n mod 10 < 10" by simp
    then have "''0123456789'' ! (n mod 10) \<in> set ''0123456789''"
      by (rule digit_char)
    then show ?thesis
      using False 1 by (subst digits.simps) simp
  qed
qed

lemma show_num_no_o: "CHR ''o'' \<notin> set (show_num n)"
proof (cases n)
  case (Num i)
  then show ?thesis
    using digits_chars[of "nat i"] digits_chars[of "nat (- i)"]
    by (auto simp: show_int_def)
qed simp_all

lemma show_num_not_closes: "\<not> includes_str (show_num n) ''eom''"
  using includes_str_set[of "show_num n" "''eom''"] show_num_no_o[of n] by auto

lemma closes_reopen: "closes (reopen j) \<Longrightarrow> closes j"
proof (cases "includes_str j ''}''")
  case True
  assume "closes (reopen j)"
  then have "includes_str (take (length j - 1) j @ CHR '','' # []) ''eom''"
    using True by (simp add: closes_def reopen_def)
  then have "includes_str (take (length j - 1) j) ''eom''"
    by (subst (asm) includes_str_sep) simp_all
  then show ?thesis
    unfolding closes_def by (rule includes_str_take)
next
  case False
  assume "closes (reopen j)"
  then show ?thesis
    using False by (simp add: reopen_def)
qed

lemma closes_field_eom: "closes (j @ field ''eom'' num)"
proof -
  have \<open>j @ field ''eom'' num = (j @ ''"'') @ ''eom'' @ (''":'' @ show_num num @ ''}'')\<close>
    by (simp add: field_def)
  then show ?thesis
    unfolding closes_def includes_str_iff by blast
qed

lemma closes_field:
  "closes (j @ field k num) \<longleftrightarrow> closes j \<or> includes_str k ''eom''"
proof -
  have \<open>j @ field k num = j @ CHR 0x22 # (k @ CHR 0x22 # ([] @ CHR '':'' # (show_num num @ CHR ''}'' # [])))\<close>
    by (simp add: field_def)
  then show ?thesis
    by (simp add: closes_def includes_str_sep show_num_not_closes del: append_Nil)
qed

lemma append_step:
  fixes s :: gstate and sn :: int and k :: string and num :: jsnum and j0 :: string
  assumes g: "deviceMode s = Gateway"
    and sl: "buffer st s (Num (indexOf (device_registrar s) sn)) = Some j0"
    and j2: "appended st j0 k num = j2"
  shows "\<exists>s'. gatewaySend st sn k num s = Inr s' \<and>
     deviceMode s' = Gateway \<and> device_registrar s' = device_registrar s \<and> dbg_on s' = dbg_on s \<and>
     buffer st s' (Num (indexOf (device_registrar s') sn)) =
        Some (if closes j2 then template st else j2) \<and>
     wrote s s' (if closes j2 then [j2, []] else [])"
proof (cases st)
  case Telemetry
  then show ?thesis
    using telemetry_step[OF g sl[unfolded Telemetry buffer.simps] j2[unfolded Telemetry]]
    by (simp only: gatewaySend.simps buffer.simps template.simps)
next
  case Property
  then show ?thesis
    using property_step[OF g sl[unfolded Property buffer.simps] j2[unfolded Property appended.simps]]
    by (simp only: gatewaySend.simps buffer.simps template.simps)
next
  case Log
  then show ?thesis
    using log_step[OF g sl[unfolded Log buffer.simps] j2[unfolded Log appended.simps]]
    by (simp only: gatewaySend.simps buffer.simps template.simps)
qed

text \<open>
  C3, as the claim has it, fails: on a telemetry buffer with no \<^verbatim>\<open>id\<close> the terminator key
  is dropped like any other key. Nothing is written and the buffer is not reset.
\<close>

theorem flush_on_terminator_counterexample:
  \<open>outcome serial_out (gatewaySend Telemetry 7 ''eom'' (Num 1) quiet7) = Some [] \<and>
   outcome device_telemetry (gatewaySend Telemetry 7 ''eom'' (Num 1) quiet7) =
     Some [Some ''{"topic":"telemetry",'']\<close>
proof -
  have a: \<open>appended Telemetry init_telemetry ''eom'' (Num 1) = ''{"topic":"telemetry",''\<close>
    by (simp add: reopen_init_telemetry)
  have na: \<open>\<not> includes_str ''{"topic":"telemetry",'' ''eom''\<close>
    by simp
  obtain s' where s': "gatewaySendTelemetry 7 ''eom'' (Num 1) quiet7 = Inr s'"
    \<open>device_telemetry s' = (device_telemetry quiet7)[nat (indexOf (device_registrar quiet7) 7) :=
       Some ''{"topic":"telemetry",'']\<close>
    "wrote quiet7 s' []"
    using gatewaySendTelemetry_Inr[OF quiet7_fields(1) quiet7_slot, of "''eom''" "Num 1"] a na
    by simp metis
  have "\<not> dbg_on quiet7"
    by (simp add: dbg_on_def quiet7_fields)
  then show ?thesis
    using s'(1,2) wrote_quiet[OF s'(3)] by (simp add: outcome_def quiet7_fields)
qed

text \<open>
  A key that only contains the letters \<^verbatim>\<open>eom\<close> closes a buffer too: the test is made on the
  whole text of the buffer.
\<close>

lemma key_containing_eom_flushes:
  \<open>outcome serial_out (gatewaySendProperty 7 ''geometry'' (Num 5) quiet7) =
     Some [''{"topic":"property","geometry":5}'', []]\<close>
proof -
  have pl: "arr_get (device_property quiet7) (Num (indexOf (device_registrar quiet7) 7)) =
      Some init_property"
    by (simp add: quiet7_fields)
  have a: \<open>reopen init_property @ field ''geometry'' (Num 5) = ''{"topic":"property","geometry":5}''\<close>
    by (simp add: reopen_def init_property_def field_def show_int_def digits.simps)
  have c: \<open>closes ''{"topic":"property","geometry":5}''\<close>
    by (simp add: closes_def)
  obtain s' where s': "gatewaySendProperty 7 ''geometry'' (Num 5) quiet7 = Inr s'"
    \<open>wrote quiet7 s' [''{"topic":"property","geometry":5}'', []]\<close>
    using property_step[OF quiet7_fields(1) pl a] c by (auto simp del: arr_get.simps)
  have "\<not> dbg_on quiet7"
    by (simp add: dbg_on_def quiet7_fields)
  then show ?thesis
    using s'(1) wrote_quiet[OF s'(2)] by (simp add: outcome_def quiet7_fields)
qed

lemma template_open: "\<not> closes (template st)"
  by (cases st) (simp_all add: closes_def init_telemetry_def init_property_def init_log_def)

text \<open>
  C3, amended. On a gateway, for each of the three streams, a sender whose buffer \<open>j0\<close>
  exists and does not hold the text \<^verbatim>\<open>eom\<close>, and a number that is printed with all its
  digits: appending the key \<^verbatim>\<open>eom\<close> to a property or log buffer, or to a telemetry buffer that
  holds \<^verbatim>\<open>id\<close>, completes, writes the whole buffer with the \<^verbatim>\<open>eom\<close> field as one line (and
  the empty line after it) once, and leaves the stream's empty template; appending
  \<^verbatim>\<open>eom\<close> to a telemetry buffer without \<^verbatim>\<open>id\<close> writes nothing and leaves the buffer reopened;
  and an append whose key does not contain the text \<^verbatim>\<open>eom\<close> writes nothing and leaves the
  buffer with what the append made of it. The empty templates do not hold \<^verbatim>\<open>eom\<close>, and
  whatever the key, the buffer an append leaves does not hold it either.
\<close>

theorem flush_on_terminator:
  assumes g: "deviceMode s = Gateway"
    and b: "buffer st s (Num (indexOf (device_registrar s) sn)) = Some j0"
    and nc: "\<not> closes j0"
    and pr: "printable num"
  shows "(st \<noteq> Telemetry \<or> includes_str (reopen j0) ''id'' \<longrightarrow>
           (\<exists>s'. gatewaySend st sn ''eom'' num s = Inr s' \<and>
              wrote s s' [reopen j0 @ field ''eom'' num, []] \<and>
              buffer st s' (Num (indexOf (device_registrar s) sn)) = Some (template st))) \<and>
         (st = Telemetry \<and> \<not> includes_str (reopen j0) ''id'' \<longrightarrow>
           (\<exists>s'. gatewaySend st sn ''eom'' num s = Inr s' \<and> wrote s s' [] \<and>
              buffer st s' (Num (indexOf (device_registrar s) sn)) = Some (reopen j0))) \<and>
         (\<not> includes_str k ''eom'' \<longrightarrow>
           (\<exists>s'. gatewaySend st sn k num s = Inr s' \<and> wrote s s' [] \<and>
              buffer st s' (Num (indexOf (device_registrar s) sn)) = Some (appended st j0 k num))) \<and>
         (\<exists>s' j. gatewaySend st sn k num s = Inr s' \<and>
              buffer st s' (Num (indexOf (device_registrar s) sn)) = Some j \<and> \<not> closes j) \<and>
         \<not> closes (template st)"
proof (intro conjI impI)
  assume a: "st \<noteq> Telemetry \<or> includes_str (reopen j0) ''id''"
  then have e: "appended st j0 ''eom'' num = reopen j0 @ field ''eom'' num"
    by (cases st) auto
  show "\<exists>s'. gatewaySend st sn ''eom'' num s = Inr s' \<and>
              wrote s s' [reopen j0 @ field ''eom'' num, []] \<and>
              buffer st s' (Num (indexOf (device_registrar s) sn)) = Some (template st)"
    using append_step[OF g b e] closes_field_eom[of "reopen j0" num]
    by (auto simp del: buffer.simps)
next
  assume a: "st = Telemetry \<and> \<not> includes_str (reopen j0) ''id''"
  then have e: "appended st j0 ''eom'' num = reopen j0"
    by auto
  have "\<not> closes (reopen j0)"
    using nc closes_reopen by blast
  then show "\<exists>s'. gatewaySend st sn ''eom'' num s = Inr s' \<and> wrote s s' [] \<and>
              buffer st s' (Num (indexOf (device_registrar s) sn)) = Some (reopen j0)"
    using append_step[OF g b e] by (auto simp del: buffer.simps)
next
  assume a: "\<not> includes_str k ''eom''"
  have r: "\<not> closes (reopen j0)"
    using nc closes_reopen by blast
  have "\<not> closes (appended st j0 k num)"
    using a r by (cases st) (auto simp: closes_field)
  then show "\<exists>s'. gatewaySend st sn k num s = Inr s' \<and> wrote s s' [] \<and>
              buffer st s' (Num (indexOf (device_registrar s) sn)) = Some (appended st j0 k num)"
    using append_step[OF g b refl, of k num] by (auto simp del: buffer.simps)
next
  obtain s' where s': "gatewaySend st sn k num s = Inr s'"
    "device_registrar s' = device_registrar s"
    "buffer st s' (Num (indexOf (device_registrar s') sn)) =
       Some (if closes (appended st j0 k num) then template st else appended st j0 k num)"
    using append_step[OF g b refl, of k num] by blast
  have "\<not> closes (if closes (appended st j0 k num) then template st else appended st j0 k num)"
    using template_open by simp
  then show "\<exists>s' j. gatewaySend st sn k num s = Inr s' \<and>
              buffer st s' (Num (indexOf (device_registrar s) sn)) = Some j \<and> \<not> closes j"
    using s' by (intro exI[of _ s'] exI[of _ "if closes (appended st j0 k num) then template st
      else appended st j0 k num"]) (simp del: buffer.simps)
next
  show "\<not> closes (template st)"
    by (rule template_open)
qed

theorem flush_on_terminator_witness:
  "deviceMode quiet7 = Gateway \<and>
   buffer Property quiet7 (Num (indexOf (device_registrar quiet7) 7)) = Some init_property \<and>
   \<not> includes_str ''a'' ''eom'' \<and> \<not> closes init_property \<and> printable (Num 1) \<and>
   (\<exists>s'. gatewaySend Property 7 ''eom'' (Num 1) quiet7 = Inr s' \<and>
      wrote quiet7 s' [reopen init_property @ field ''eom'' (Num 1), []] \<and>
      buffer Property s' (Num (indexOf (device_registrar quiet7) 7)) = Some (template Property)) \<and>
   (\<exists>s'. gatewaySend Property 7 ''a'' (Num 1) quiet7 = Inr s' \<and> wrote quiet7 s' [] \<and>
      buffer Property s' (Num (indexOf (device_registrar quiet7) 7)) =
        Some (appended Property init_property ''a'' (Num 1)))"
proof -
  have b: "buffer Property quiet7 (Num (indexOf (device_registrar quiet7) 7)) = Some init_property"
    by (simp add: quiet7_fields)
  have n: "\<not> includes_str ''a'' ''eom''" "\<not> closes init_property" "printable (Num 1)"
    by (simp_all add: closes_def init_property_def printable_def)
  show ?thesis
    using flush_on_terminator[OF quiet7_fields(1) b n(2,3), where k = "''a''"]
      b n quiet7_fields(1)
    by (simp only: simp_thms) blast
qed

subsection \<open>Addressed fan-out\<close>

lemma processC2D_rgb_1:
  "\<exists>d. processC2D pf ''1:rgb(255,0,0)'' s = Inr (s\<lparr>doCommands := d\<rparr>)"
  apply (simp add: processC2D_def and_then_def run_call_def str_at_def invokeCommands_def)
  apply (intro conjI impI)
   apply (rule exI[of _ False], simp)
  apply (rule exI[of _ "doCommands s"], simp)
  done

lemma processC2D_rgb_2:
  "\<exists>d. processC2D pf ''2:rgb(255,0,0)'' s = Inr (s\<lparr>doCommands := d\<rparr>)"
  apply (simp add: processC2D_def and_then_def run_call_def str_at_def invokeCommands_def)
  apply (intro conjI impI)
   apply (rule exI[of _ False], simp)
  apply (rule exI[of _ "doCommands s"], simp)
  done

lemma relay_rgb:
  assumes p: "\<exists>d. processC2D pf (a @ '':rgb(255,0,0)'') t = Inr (t\<lparr>doCommands := d\<rparr>)"
  shows "\<exists>t'. relay_to pf ''rgb(255,0,0)'' a t = Inr t' \<and>
     radio_out t' = radio_out t @ [SendString (a @ '':rgb(255,0,0)'')]"
  using p by (auto simp: relay_to_def and_then_def Let_def basic_defs)

text \<open>
  C7. On a gateway, whatever the variables hold and whatever \<^verbatim>\<open>parseFloat\<close> returns, the
  serial line \<^verbatim>\<open>1,2:rgb(255,0,0)\<close> makes the handler complete and send exactly two strings
  on the radio: \<^verbatim>\<open>1:rgb(255,0,0)\<close>, then \<^verbatim>\<open>2:rgb(255,0,0)\<close>.
\<close>

theorem addressed_fan_out:
  assumes "deviceMode s = Gateway"
  shows "\<exists>s'. serial_onDataReceived pf ''1,2:rgb(255,0,0)'' s = Inr s' \<and>
     radio_out s' =
       radio_out s @ [SendString ''1:rgb(255,0,0)'', SendString ''2:rgb(255,0,0)'']"
proof -
  define s1 where
    "s1 = debug (''serial.onDataReceived() > serialRead ='' @ ''1,2:rgb(255,0,0)'') None s"
  have r1: "radio_out s1 = radio_out s"
    by (simp add: s1_def basic_defs)
  obtain s2 where s2: "relay_to pf ''rgb(255,0,0)'' ''1'' s1 = Inr s2"
    "radio_out s2 = radio_out s1 @ [SendString ''1:rgb(255,0,0)'']"
    using relay_rgb[of pf "''1''" s1] processC2D_rgb_1[of pf s1] by auto
  obtain s3 where s3: "relay_to pf ''rgb(255,0,0)'' ''2'' s2 = Inr s3"
    "radio_out s3 = radio_out s2 @ [SendString ''2:rgb(255,0,0)'']"
    using relay_rgb[of pf "''2''" s2] processC2D_rgb_2[of pf s2] by auto
  have "serial_onDataReceived pf ''1,2:rgb(255,0,0)'' s = Inr s3"
    using assms s2(1) s3(1) by (simp add: serial_onDataReceived_def and_then_def s1_def)
  then show ?thesis
    using s2(2) s3(2) r1 by simp
qed

theorem addressed_fan_out_witness:
  "deviceMode (boot 7) = Gateway \<and>
   (\<exists>s'. serial_onDataReceived parseFloat_dec ''1,2:rgb(255,0,0)'' (boot 7) = Inr s' \<and>
      radio_out s' = [SendString ''1:rgb(255,0,0)'', SendString ''2:rgb(255,0,0)''])"
  using addressed_fan_out[of "boot 7" parseFloat_dec] by (simp add: boot_def)


subsection \<open>What a completed append leaves alone\<close>

lemma gatewaySendTelemetry_slot:
  assumes "gatewaySendTelemetry sn k num s = Inr s'" "deviceMode s = Gateway"
  shows "\<exists>j0. telemetry_slot s (Num (indexOf (device_registrar s) sn)) = Some j0"
proof (cases "telemetry_slot s (Num (indexOf (device_registrar s) sn))")
  case None
  then show ?thesis
    using assms by (simp add: gatewaySendTelemetry_def Let_def debug_eq)
qed simp

lemma gatewaySendProperty_slot:
  assumes "gatewaySendProperty sn k num s = Inr s'" "deviceMode s = Gateway"
  shows "\<exists>j0. arr_get (device_property s) (Num (indexOf (device_registrar s) sn)) = Some j0"
proof (cases "arr_get (device_property s) (Num (indexOf (device_registrar s) sn))")
  case None
  then show ?thesis
    using assms by (simp add: gatewaySendProperty_def Let_def debug_eq del: arr_get.simps)
qed simp

text \<open>What any completed telemetry append leaves alone.\<close>

lemma gatewaySendTelemetry_frame:
  assumes r: "gatewaySendTelemetry sn k num s = Inr s'"
  shows "unwritten s' = unwritten s" "device_property s' = device_property s"
    "device_log s' = device_log s" "length (device_telemetry s') = length (device_telemetry s)"
    "i \<noteq> nat (indexOf (device_registrar s) sn) \<Longrightarrow> device_telemetry s' ! i = device_telemetry s ! i"
    "clock s \<le> clock s'"
    "deviceMode s = Gateway \<Longrightarrow> microbit_ID s' = Num (indexOf (device_registrar s) sn)"
    "deviceMode s = Gateway \<Longrightarrow> 0 \<le> indexOf (device_registrar s) sn \<and>
       indexOf (device_registrar s) sn < int (length (device_telemetry s))"
    "deviceMode s \<noteq> Gateway \<Longrightarrow> s' = s"
proof -
  have *: "unwritten s' = unwritten s \<and> device_property s' = device_property s \<and>
    device_log s' = device_log s \<and> length (device_telemetry s') = length (device_telemetry s) \<and>
    (i \<noteq> nat (indexOf (device_registrar s) sn) \<longrightarrow> device_telemetry s' ! i = device_telemetry s ! i) \<and>
    clock s \<le> clock s' \<and>
    (deviceMode s = Gateway \<longrightarrow> microbit_ID s' = Num (indexOf (device_registrar s) sn) \<and>
       0 \<le> indexOf (device_registrar s) sn \<and>
       indexOf (device_registrar s) sn < int (length (device_telemetry s))) \<and>
    (deviceMode s \<noteq> Gateway \<longrightarrow> s' = s)"
  proof (cases "deviceMode s = Gateway")
    case False
    then have "s' = s"
      using r by (simp add: gatewaySendTelemetry_def)
    then show ?thesis
      using False by simp
  next
    case True
    obtain j0 where sl: "telemetry_slot s (Num (indexOf (device_registrar s) sn)) = Some j0"
      using gatewaySendTelemetry_slot[OF r True] by blast
    have b: "0 \<le> indexOf (device_registrar s) sn \<and>
       indexOf (device_registrar s) sn < int (length (device_telemetry s))"
      using telemetry_slot_SomeD[OF sl] by simp
    show ?thesis
      by (rule gatewaySendTelemetry_Inr[OF True sl, of k num]) (use r True b in simp)
  qed
  show "unwritten s' = unwritten s" "device_property s' = device_property s"
    "device_log s' = device_log s" "length (device_telemetry s') = length (device_telemetry s)"
    "i \<noteq> nat (indexOf (device_registrar s) sn) \<Longrightarrow> device_telemetry s' ! i = device_telemetry s ! i"
    "clock s \<le> clock s'"
    "deviceMode s = Gateway \<Longrightarrow> microbit_ID s' = Num (indexOf (device_registrar s) sn)"
    "deviceMode s = Gateway \<Longrightarrow> 0 \<le> indexOf (device_registrar s) sn \<and>
       indexOf (device_registrar s) sn < int (length (device_telemetry s))"
    "deviceMode s \<noteq> Gateway \<Longrightarrow> s' = s"
    using * by simp_all
qed

lemma gatewaySendProperty_frame:
  assumes r: "gatewaySendProperty sn k num s = Inr s'"
  shows "unwritten s' = unwritten s" "device_telemetry s' = device_telemetry s"
    "device_log s' = device_log s" "length (device_property s') = length (device_property s)"
    "i \<noteq> nat (indexOf (device_registrar s) sn) \<Longrightarrow> device_property s' ! i = device_property s ! i"
    "clock s \<le> clock s'"
    "deviceMode s = Gateway \<Longrightarrow> microbit_ID s' = Num (indexOf (device_registrar s) sn)"
    "deviceMode s = Gateway \<Longrightarrow> 0 \<le> indexOf (device_registrar s) sn \<and>
       indexOf (device_registrar s) sn < int (length (device_property s))"
    "deviceMode s \<noteq> Gateway \<Longrightarrow> s' = s"
proof -
  have *: "unwritten s' = unwritten s \<and> device_telemetry s' = device_telemetry s \<and>
    device_log s' = device_log s \<and> length (device_property s') = length (device_property s) \<and>
    (i \<noteq> nat (indexOf (device_registrar s) sn) \<longrightarrow> device_property s' ! i = device_property s ! i) \<and>
    clock s \<le> clock s' \<and>
    (deviceMode s = Gateway \<longrightarrow> microbit_ID s' = Num (indexOf (device_registrar s) sn) \<and>
       0 \<le> indexOf (device_registrar s) sn \<and>
       indexOf (device_registrar s) sn < int (length (device_property s))) \<and>
    (deviceMode s \<noteq> Gateway \<longrightarrow> s' = s)"
  proof (cases "deviceMode s = Gateway")
    case False
    then have "s' = s"
      using r by (simp add: gatewaySendProperty_def)
    then show ?thesis
      using False by simp
  next
    case True
    obtain j0 where sl: "arr_get (device_property s) (Num (indexOf (device_registrar s) sn)) = Some j0"
      using gatewaySendProperty_slot[OF r True] by blast
    have b: "0 \<le> indexOf (device_registrar s) sn \<and>
       indexOf (device_registrar s) sn < int (length (device_property s))"
      using arr_get_SomeD[OF sl] by simp
    show ?thesis
      by (rule gatewaySendProperty_Inr[OF True sl, of k num]) (use r True b in simp)
  qed
  show "unwritten s' = unwritten s" "device_telemetry s' = device_telemetry s"
    "device_log s' = device_log s" "length (device_property s') = length (device_property s)"
    "i \<noteq> nat (indexOf (device_registrar s) sn) \<Longrightarrow> device_property s' ! i = device_property s ! i"
    "clock s \<le> clock s'"
    "deviceMode s = Gateway \<Longrightarrow> microbit_ID s' = Num (indexOf (device_registrar s) sn)"
    "deviceMode s = Gateway \<Longrightarrow> 0 \<le> indexOf (device_registrar s) sn \<and>
       indexOf (device_registrar s) sn < int (length (device_property s))"
    "deviceMode s \<noteq> Gateway \<Longrightarrow> s' = s"
    using * by simp_all
qed


subsection \<open>Positions in the registrar\<close>

lemma indexOf_ge: "- 1 \<le> indexOf xs x"
  by (induction xs) (auto simp: Let_def)

lemma indexOf_neg_iff: "indexOf xs x < 0 \<longleftrightarrow> x \<notin> set xs"
  using indexOf_ge[of _ x] by (induction xs) (auto simp: Let_def)

lemma indexOf_absent: "x \<notin> set xs \<Longrightarrow> indexOf xs x = - 1"
  using indexOf_neg_iff[of xs x] indexOf_ge[of xs x] by simp

lemma indexOf_lt: "indexOf xs x < int (length xs)"
  by (induction xs) (auto simp: Let_def)

lemma indexOf_nth: "x \<in> set xs \<Longrightarrow> xs ! nat (indexOf xs x) = x"
proof (induction xs)
  case (Cons y ys)
  show ?case
  proof (cases "y = x")
    case False
    then have "x \<in> set ys" using Cons.prems by simp
    then have "0 \<le> indexOf ys x" "ys ! nat (indexOf ys x) = x"
      using indexOf_neg_iff[of ys x] Cons.IH by auto
    then show ?thesis
      using False by (simp add: Let_def nat_add_distrib)
  qed simp
qed simp

lemma indexOf_append_in: "x \<in> set xs \<Longrightarrow> indexOf (xs @ ys) x = indexOf xs x"
proof (induction xs)
  case (Cons y ys')
  show ?case
  proof (cases "y = x")
    case False
    then have "x \<in> set ys'" using Cons.prems by simp
    then show ?thesis
      using False Cons.IH by (simp add: Let_def)
  qed simp
qed simp

lemma indexOf_snoc: "x \<notin> set xs \<Longrightarrow> indexOf (xs @ [x]) x = int (length xs)"
  by (induction xs) (auto simp: Let_def)

lemma indexOf_distinct_nth:
  "distinct xs \<Longrightarrow> i < length xs \<Longrightarrow> indexOf xs (xs ! i) = int i"
proof (induction xs arbitrary: i)
  case (Cons y ys)
  show ?case
  proof (cases i)
    case (Suc j)
    then have "indexOf ys (ys ! j) = int j" "ys ! j \<noteq> y"
      using Cons by auto
    then show ?thesis
      using Suc by (simp add: Let_def)
  qed simp
qed simp

subsection \<open>The registrar\<close>

lemma addMicrobit_new_eq:
  assumes g: "deviceMode s = Gateway" and n: "sn \<notin> set (device_registrar s)"
  shows "addMicrobit sn s =
     s\<lparr>device_telemetry := device_telemetry s @ [Some init_telemetry],
       device_property := device_property s @ [init_property],
       device_log := device_log s @ [init_log],
       device_registrar := device_registrar s @ [sn],
       timerRadioRequest := clock s + 4 * dbg_ms s + 1000,
       timerGatewayRequest := clock s + 4 * dbg_ms s + 1000,
       clock := clock s + 4 * dbg_ms s,
       serial_out := serial_out s @ dbg_out s (''addMicrobit('' @ show_int sn @ '')'') None @
         dbg_out s ''id'' (Some (Num (- 1))) @ dbg_out s ''id < 0'' None @
         dbg_out s (''setId('' @ show_int (int (length (device_registrar s))) @ '','' @
                    show_int sn @ '')'') None,
       radio_out := radio_out s @
         [SendString (''setId('' @ show_int (int (length (device_registrar s))) @ '','' @
                      show_int sn @ '')'')]\<rparr>"
  using g indexOf_absent[OF n] indexOf_snoc[OF n]
  by (simp add: addMicrobit_def Let_def debug_eq radio_sendString_def
      setTimerRadioRequest_def setTimerGatewayRequest_def dbg_out_def dbg_ms_def)

lemma addMicrobit_new:
  assumes g: "deviceMode s = Gateway" and n: "sn \<notin> set (device_registrar s)"
  shows "device_registrar (addMicrobit sn s) = device_registrar s @ [sn]"
    "device_telemetry (addMicrobit sn s) = device_telemetry s @ [Some init_telemetry]"
    "device_property (addMicrobit sn s) = device_property s @ [init_property]"
    "device_log (addMicrobit sn s) = device_log s @ [init_log]"
    "radio_out (addMicrobit sn s) = radio_out s @
       [SendString (''setId('' @ show_int (int (length (device_registrar s))) @ '','' @
                    show_int sn @ '')'')]"
    "packet_loss (addMicrobit sn s) = packet_loss s"
    "microbit_ID (addMicrobit sn s) = microbit_ID s"
    "activeRadioRequest (addMicrobit sn s) = activeRadioRequest s"
    "deviceMode (addMicrobit sn s) = deviceMode s"
    "serialNumber (addMicrobit sn s) = serialNumber s"
  by (simp_all add: addMicrobit_new_eq[OF g n])


lemma addMicrobit_old_eq:
  assumes "deviceMode s \<noteq> Gateway \<or> sn \<in> set (device_registrar s)"
  shows "addMicrobit sn s =
     s\<lparr>clock := clock s + 3 * dbg_ms s,
       serial_out := serial_out s @ dbg_out s (''addMicrobit('' @ show_int sn @ '')'') None @
         dbg_out s ''id'' (Some (Num (indexOf (device_registrar s) sn))) @
         dbg_out s ''id >= 0'' None\<rparr>"
proof (cases "deviceMode s = Gateway")
  case True
  then have "0 \<le> indexOf (device_registrar s) sn"
    using assms indexOf_neg_iff[of "device_registrar s" sn] by auto
  then show ?thesis
    using True by (simp add: addMicrobit_def Let_def debug_eq dbg_out_def dbg_ms_def)
next
  case False
  then show ?thesis
    by (simp add: addMicrobit_def dbg_out_def dbg_ms_def dbg_on_def)
qed

lemma addMicrobit_old:
  assumes "deviceMode s \<noteq> Gateway \<or> sn \<in> set (device_registrar s)"
  shows "device_registrar (addMicrobit sn s) = device_registrar s"
    "device_telemetry (addMicrobit sn s) = device_telemetry s"
    "device_property (addMicrobit sn s) = device_property s"
    "device_log (addMicrobit sn s) = device_log s"
    "radio_out (addMicrobit sn s) = radio_out s"
    "packet_loss (addMicrobit sn s) = packet_loss s"
    "microbit_ID (addMicrobit sn s) = microbit_ID s"
    "activeRadioRequest (addMicrobit sn s) = activeRadioRequest s"
    "deviceMode (addMicrobit sn s) = deviceMode s"
    "serialNumber (addMicrobit sn s) = serialNumber s"
    "timerRadioRequest (addMicrobit sn s) = timerRadioRequest s"
  by (simp_all add: addMicrobit_old_eq[OF assms])

lemma delMicrobit_eq:
  "delMicrobit sn s =
     s\<lparr>device_telemetry :=
         (if del_hits sn s
          then (device_telemetry s)[nat (indexOf (device_registrar s) sn) := None]
          else device_telemetry s),
       clock := clock s + (if del_hits sn s then 3 else 2) * dbg_ms s,
       serial_out := serial_out s @ dbg_out s ''delMicrobit() > sn'' (Some (Num sn)) @
         dbg_out s ''delMicrobit() > id'' (Some (Num (indexOf (device_registrar s) sn))) @
         (if del_hits sn s
          then dbg_out s ''delMicrobit > radio.sendString > setId(-1,sn)'' (Some (Num sn))
          else []),
       radio_out := radio_out s @
         (if del_hits sn s then [SendString (''setId(-1,'' @ show_int sn @ '')'')] else [])\<rparr>"
proof (cases "deviceMode s = Gateway")
  case False
  then show ?thesis
    by (simp add: delMicrobit_def del_hits_def dbg_out_def dbg_ms_def dbg_on_def)
next
  case True
  show ?thesis
  proof (cases "del_hits sn s")
    case h: True
    then have "0 \<le> indexOf (device_registrar s) sn"
      "indexOf (device_registrar s) sn < int (length (device_telemetry s))"
      "telemetry_slot s (Num (indexOf (device_registrar s) sn)) \<noteq> None"
      using telemetry_slot_SomeD[of s "indexOf (device_registrar s) sn"]
      by (auto simp: del_hits_def)
    then show ?thesis
      using True h
      by (simp add: delMicrobit_def Let_def debug_eq radio_sendString_def dbg_out_def dbg_ms_def)
  next
    case h: False
    then consider "indexOf (device_registrar s) sn < 0"
      | "telemetry_slot s (Num (indexOf (device_registrar s) sn)) = None"
      using True by (auto simp: del_hits_def)
    then show ?thesis
    proof cases
      case 1
      then show ?thesis
        using True h
        by (simp add: delMicrobit_def Let_def debug_eq radio_sendString_def dbg_out_def dbg_ms_def)
    next
      case 2
      then show ?thesis
        using True h
        by (simp add: delMicrobit_def Let_def debug_eq radio_sendString_def dbg_out_def dbg_ms_def)
    qed
  qed
qed

lemma delMicrobit_fields:
  "device_registrar (delMicrobit sn s) = device_registrar s"
  "device_property (delMicrobit sn s) = device_property s"
  "device_log (delMicrobit sn s) = device_log s"
  "length (device_telemetry (delMicrobit sn s)) = length (device_telemetry s)"
  "packet_loss (delMicrobit sn s) = packet_loss s"
  "microbit_ID (delMicrobit sn s) = microbit_ID s"
  "activeRadioRequest (delMicrobit sn s) = activeRadioRequest s"
  "deviceMode (delMicrobit sn s) = deviceMode s"
  "serialNumber (delMicrobit sn s) = serialNumber s"
  "timerRadioRequest (delMicrobit sn s) = timerRadioRequest s"
  by (simp_all add: delMicrobit_eq[of sn s])

text \<open>
  C2. On a gateway, for a serial number that is not yet in the registrar: the first
  \<^verbatim>\<open>addMicrobit\<close> gives it the next index, the second gives the same index and leaves the
  registrar and the three buffer arrays as the first left them, and the radio output of the
  two calls together is the one string \<^verbatim>\<open>setId(index,serial)\<close>.
\<close>

theorem idempotent_registration:
  assumes g: "deviceMode s = Gateway" and n: "sn \<notin> set (device_registrar s)"
  shows "indexOf (device_registrar (addMicrobit sn s)) sn = int (length (device_registrar s)) \<and>
         indexOf (device_registrar (addMicrobit sn (addMicrobit sn s))) sn =
           indexOf (device_registrar (addMicrobit sn s)) sn \<and>
         device_registrar (addMicrobit sn (addMicrobit sn s)) = device_registrar (addMicrobit sn s) \<and>
         device_telemetry (addMicrobit sn (addMicrobit sn s)) = device_telemetry (addMicrobit sn s) \<and>
         device_property (addMicrobit sn (addMicrobit sn s)) = device_property (addMicrobit sn s) \<and>
         device_log (addMicrobit sn (addMicrobit sn s)) = device_log (addMicrobit sn s) \<and>
         radio_out (addMicrobit sn (addMicrobit sn s)) = radio_out s @
           [SendString (''setId('' @ show_int (int (length (device_registrar s))) @ '','' @
                        show_int sn @ '')'')]"
proof -
  have i: "sn \<in> set (device_registrar (addMicrobit sn s))"
    by (simp add: addMicrobit_new(1)[OF g n])
  then have o: "deviceMode (addMicrobit sn s) \<noteq> Gateway \<or> sn \<in> set (device_registrar (addMicrobit sn s))"
    by simp
  show ?thesis
    using addMicrobit_old(1-5)[OF o] addMicrobit_new(1-5)[OF g n] indexOf_snoc[OF n]
    by simp
qed

theorem idempotent_registration_witness:
  "deviceMode quiet7 = Gateway \<and> 11 \<notin> set (device_registrar quiet7) \<and>
   indexOf (device_registrar (addMicrobit 11 quiet7)) 11 = 1 \<and>
   indexOf (device_registrar (addMicrobit 11 (addMicrobit 11 quiet7))) 11 = 1 \<and>
   radio_out (addMicrobit 11 (addMicrobit 11 quiet7)) =
     [SendString ''setId(0,7)'', SendString ''setId(1,11)'']"
proof -
  have n: "11 \<notin> set (device_registrar quiet7)"
    by (simp add: quiet7_fields)
  show ?thesis
    using idempotent_registration[OF quiet7_fields(1) n] n
    by (simp add: quiet7_fields show_int_def digits.simps)
qed

subsection \<open>Radio values on the gateway\<close>

lemma arraysD:
  assumes "arrays s' = arrays s"
  shows "device_registrar s' = device_registrar s" "device_telemetry s' = device_telemetry s"
    "device_property s' = device_property s" "device_log s' = device_log s"
  using assms by (simp_all add: arrays_def)

lemma radio_opened_eq:
  assumes g: "deviceMode s = Gateway"
  shows "radio_opened name v p s =
     s\<lparr>timerRadioRequest := clock s + dbg_ms s + 400,
       clock := clock s + 3 * dbg_ms s,
       serial_out := serial_out s @
         dbg_out s (''radio.onReceivedValue('' @ name @ '','' @ show_num v @ '')'') None @
         dbg_out s ''radio.onReceivedValue() > sn'' (Some (Num (pkt_serial p))) @
         dbg_out s ''radio.onReceivedValue() > id''
           (Some (Num (indexOf (device_registrar s) (pkt_serial p))))\<rparr>"
  using g by (simp add: radio_opened_def debug_eq setTimerRadioRequest_def dbg_out_def dbg_ms_def)

lemma radio_opened_fields:
  assumes g: "deviceMode s = Gateway"
  shows "unwritten (radio_opened name v p s) =
      unwritten (s\<lparr>timerRadioRequest := clock s + dbg_ms s + 400\<rparr>)"
    "device_telemetry (radio_opened name v p s) = device_telemetry s"
    "device_property (radio_opened name v p s) = device_property s"
    "device_log (radio_opened name v p s) = device_log s"
    "microbit_ID (radio_opened name v p s) = microbit_ID s"
    "device_registrar (radio_opened name v p s) = device_registrar s"
    "deviceMode (radio_opened name v p s) = Gateway"
    "packet_loss (radio_opened name v p s) = packet_loss s"
    "activeRadioRequest (radio_opened name v p s) = activeRadioRequest s"
    "telemetry_slot (radio_opened name v p s) i = telemetry_slot s i"
  using g by (simp_all add: radio_opened_eq[OF g] unwritten_def telemetry_slot_def)

lemma telemetry_field_packet_loss:
  "packet_loss s' = packet_loss s \<Longrightarrow> telemetry_field name v p s' = telemetry_field name v p s"
  by (simp add: telemetry_field_def)

lemma radio_gateway_part_data:
  assumes g: "deviceMode s = Gateway" and n: "name \<noteq> ''register''" "name \<noteq> ''del''"
  shows "radio_gateway_part name v p s =
     (case telemetry_field name v p s of
        Some (k, n) \<Rightarrow> gatewaySendTelemetry (pkt_serial p) k n (radio_opened name v p s)
      | None \<Rightarrow>
          if name = ''eom''
          then and_then (gatewaySendTelemetry (pkt_serial p) ''eom'' v (radio_opened name v p s))
                 (\<lambda>s. Inr (s\<lparr>activeRadioRequest := False\<rparr>))
          else if take 2 name = ''d:'' then Inr (radio_opened name v p s)
          else gatewaySendProperty (pkt_serial p) name v (radio_opened name v p s))"
proof -
  have r: "device_registrar (debug a b (setTimerRadioRequest None (debug c d s))) = device_registrar s"
    for a b c d
    by (simp add: debug_eq setTimerRadioRequest_def)
  have t: "telemetry_field name v p (radio_opened name v p s) = telemetry_field name v p s"
    by (rule telemetry_field_packet_loss) (simp add: radio_opened_fields[OF g])
  show ?thesis
    unfolding radio_gateway_part_def Let_def
    apply (simp only: g n simp_thms if_False if_True r)
    apply (fold radio_opened_def)
    apply (simp only: t)
    done
qed

lemma radio_gateway_part_registry:
  assumes g: "deviceMode s = Gateway"
  shows "radio_gateway_part ''register'' v p s =
      Inr (addMicrobit (pkt_serial p)
        (debug ''radio.onReceivedValue() > sn'' (Some (Num (pkt_serial p)))
          (setTimerRadioRequest None
             (debug (''radio.onReceivedValue('' @ ''register'' @ '','' @ show_num v @ '')'') None s))))"
    "radio_gateway_part ''del'' v p s =
      Inr (delMicrobit (pkt_serial p)
        (debug ''radio.onReceivedValue() > sn'' (Some (Num (pkt_serial p)))
          (setTimerRadioRequest None
             (debug (''radio.onReceivedValue('' @ ''del'' @ '','' @ show_num v @ '')'') None s))))"
  using g by (simp_all add: radio_gateway_part_def Let_def)

lemma radio_leaf_part_gateway: "deviceMode s = Gateway \<Longrightarrow> radio_leaf_part e name v s = Inr s"
  by (simp add: radio_leaf_part_def)

lemma radio_onReceivedValue_gateway:
  assumes "radio_gateway_part name v p s = Inr s'" "deviceMode s' = Gateway"
  shows "radio_onReceivedValue e name v p s = Inr s'"
  using assms by (simp add: radio_onReceivedValue_def and_then_def radio_leaf_part_gateway)

lemma radio_onReceivedValue_gatewayD:
  assumes "radio_onReceivedValue e name v p s = Inr s'"
  shows "\<exists>s1. radio_gateway_part name v p s = Inr s1 \<and> radio_leaf_part e name v s1 = Inr s'"
  using assms
  by (cases "radio_gateway_part name v p s")
     (simp_all add: radio_onReceivedValue_def and_then_def split: sum.splits)

lemma telemetry_field_not_log:
  "telemetry_field name v p s = Some kn \<Longrightarrow> take 2 name \<noteq> ''d:'' \<and> name \<noteq> ''eom''"
  by (auto simp: telemetry_field_def split: if_splits)

lemma telemetry_touched:
  assumes g: "deviceMode s = Gateway"
    and r: "gatewaySendTelemetry (pkt_serial p) k n (radio_opened name v p s) = Inr s'"
  shows "touched_only (indexOf (device_registrar s) (pkt_serial p)) s s'"
    "deviceMode s' = Gateway" "activeRadioRequest s' = activeRadioRequest s"
    "microbit_ID s' = Num (indexOf (device_registrar s) (pkt_serial p))"
proof -
  note o = radio_opened_fields[OF g, of name v p]
  note f = gatewaySendTelemetry_frame[OF r]
  have u: "unwritten s' = unwritten (s\<lparr>timerRadioRequest := clock s + dbg_ms s + 400\<rparr>)"
    using f(1) o(1) by simp
  show "touched_only (indexOf (device_registrar s) (pkt_serial p)) s s'"
    unfolding touched_only_def
    using unwrittenD(4,5)[OF u] f(2,3,4) f(5) o by simp
  show "deviceMode s' = Gateway" "activeRadioRequest s' = activeRadioRequest s"
    using unwrittenD(1,8)[OF u] g by simp_all
  show "microbit_ID s' = Num (indexOf (device_registrar s) (pkt_serial p))"
    using f(7) o by simp
qed

lemma property_touched:
  assumes g: "deviceMode s = Gateway"
    and r: "gatewaySendProperty (pkt_serial p) k n (radio_opened name v p s) = Inr s'"
  shows "touched_only (indexOf (device_registrar s) (pkt_serial p)) s s'"
    "deviceMode s' = Gateway" "activeRadioRequest s' = activeRadioRequest s"
    "microbit_ID s' = Num (indexOf (device_registrar s) (pkt_serial p))"
proof -
  note o = radio_opened_fields[OF g, of name v p]
  note f = gatewaySendProperty_frame[OF r]
  have u: "unwritten s' = unwritten (s\<lparr>timerRadioRequest := clock s + dbg_ms s + 400\<rparr>)"
    using f(1) o(1) by simp
  show "touched_only (indexOf (device_registrar s) (pkt_serial p)) s s'"
    unfolding touched_only_def
    using unwrittenD(4,5)[OF u] f(2,3,4) f(5) o by simp
  show "deviceMode s' = Gateway" "activeRadioRequest s' = activeRadioRequest s"
    using unwrittenD(1,8)[OF u] g by simp_all
  show "microbit_ID s' = Num (indexOf (device_registrar s) (pkt_serial p))"
    using f(7) o by simp
qed

lemma radio_value_effect:
  assumes g: "deviceMode s = Gateway" and n: "name \<noteq> ''register''" "name \<noteq> ''del''"
    and r: "radio_onReceivedValue e name v p s = Inr s'"
  shows "touched_only (indexOf (device_registrar s) (pkt_serial p)) s s' \<and>
     activeRadioRequest s' = (activeRadioRequest s \<and> name \<noteq> ''eom'') \<and>
     microbit_ID s' = (if take 2 name = ''d:'' then microbit_ID s
                       else Num (indexOf (device_registrar s) (pkt_serial p)))"
proof -
  obtain s1 where s1: "radio_gateway_part name v p s = Inr s1" "radio_leaf_part e name v s1 = Inr s'"
    using radio_onReceivedValue_gatewayD[OF r] by blast
  note d = s1(1)[unfolded radio_gateway_part_data[OF g n]]
  note o = radio_opened_fields[OF g, of name v p]
  have *: "deviceMode s1 = Gateway \<and>
     touched_only (indexOf (device_registrar s) (pkt_serial p)) s s1 \<and>
     activeRadioRequest s1 = (activeRadioRequest s \<and> name \<noteq> ''eom'') \<and>
     microbit_ID s1 = (if take 2 name = ''d:'' then microbit_ID s
                       else Num (indexOf (device_registrar s) (pkt_serial p)))"
  proof (cases "telemetry_field name v p s")
    case (Some kn)
    obtain k n' where kn: "kn = (k, n')" by (cases kn)
    have t: "gatewaySendTelemetry (pkt_serial p) k n' (radio_opened name v p s) = Inr s1"
      using d Some kn by simp
    show ?thesis
      using telemetry_touched[OF g t] telemetry_field_not_log[OF Some] by simp
  next
    case None
    show ?thesis
    proof (cases "name = ''eom''")
      case True
      then obtain t where t: "gatewaySendTelemetry (pkt_serial p) ''eom'' v (radio_opened name v p s) = Inr t"
        "s1 = t\<lparr>activeRadioRequest := False\<rparr>"
        using d None by (auto simp: and_then_def split: sum.splits)
      show ?thesis
        using telemetry_touched[OF g t(1)] t(2) True by (simp add: touched_only_def)
    next
      case ne: False
      show ?thesis
      proof (cases "take 2 name = ''d:''")
        case True
        then have "s1 = radio_opened name v p s"
          using d None ne by simp
        then show ?thesis
          using o ne True by (simp add: touched_only_def)
      next
        case False
        then have t: "gatewaySendProperty (pkt_serial p) name v (radio_opened name v p s) = Inr s1"
          using d None ne by simp
        show ?thesis
          using property_touched[OF g t] ne False by simp
      qed
    qed
  qed
  then have "s' = s1"
    using s1(2) by (simp add: radio_leaf_part_gateway)
  then show ?thesis
    using * by simp
qed




lemma gatewaySendTelemetry_Inl:
  assumes g: "deviceMode s = Gateway"
    and sl: "telemetry_slot s (Num (indexOf (device_registrar s) sn)) = None"
  shows "gatewaySendTelemetry sn k num s =
     Inl (TypeError, debug (''ID='' @ show_int (indexOf (device_registrar s) sn) @
                        '' telemetry('' @ k @ '','' @ show_num num @ '')'') None
                       (s\<lparr>microbit_ID := Num (indexOf (device_registrar s) sn)\<rparr>))"
  using g sl by (simp add: gatewaySendTelemetry_def Let_def debug_eq telemetry_slot_def)

lemma gatewaySendProperty_Inl:
  assumes g: "deviceMode s = Gateway"
    and sl: "arr_get (device_property s) (Num (indexOf (device_registrar s) sn)) = None"
  shows "gatewaySendProperty sn k num s =
     Inl (TypeError, debug (''ID='' @ show_int (indexOf (device_registrar s) sn) @ '' sn='' @ show_int sn @
                        '' property('' @ k @ '','' @ show_num num @ '')'') None
                       (s\<lparr>microbit_ID := Num (indexOf (device_registrar s) sn)\<rparr>))"
  using g sl by (simp add: gatewaySendProperty_def Let_def debug_eq del: arr_get.simps)

text \<open>What the handler leaves when the append it makes stops at a missing buffer.\<close>

lemma radio_value_stops:
  assumes g: "deviceMode s = Gateway" and n: "name \<noteq> ''register''" "name \<noteq> ''del''"
    and ns: "\<not> served name v p s"
  shows "\<exists>t. radio_onReceivedValue e name v p s = Inl (TypeError, t) \<and>
     arrays t = arrays s \<and> packet_loss t = packet_loss s \<and>
     activeRadioRequest t = activeRadioRequest s \<and> deviceMode t = Gateway"
proof -
  note o = radio_opened_fields[OF g, of name v p]
  let ?o = "radio_opened name v p s"
  let ?i = "indexOf (device_registrar s) (pkt_serial p)"
  have stop: "\<exists>t. r = Inl (TypeError, t) \<and>
     arrays t = arrays s \<and> packet_loss t = packet_loss s \<and>
     activeRadioRequest t = activeRadioRequest s \<and> deviceMode t = Gateway"
    if "r = Inl (TypeError, debug a None (?o\<lparr>microbit_ID := m\<rparr>))" for r a m
    using that o by (simp add: debug_eq arrays_def)
  have tel: "\<exists>t. gatewaySendTelemetry (pkt_serial p) k n' ?o = Inl (TypeError, t) \<and>
     arrays t = arrays s \<and> packet_loss t = packet_loss s \<and>
     activeRadioRequest t = activeRadioRequest s \<and> deviceMode t = Gateway"
    if "telemetry_slot s (Num ?i) = None" for k n'
    by (rule stop, rule gatewaySendTelemetry_Inl[OF o(7)]) (use that o in simp)
  have prp: "\<exists>t. gatewaySendProperty (pkt_serial p) k n' ?o = Inl (TypeError, t) \<and>
     arrays t = arrays s \<and> packet_loss t = packet_loss s \<and>
     activeRadioRequest t = activeRadioRequest s \<and> deviceMode t = Gateway"
    if "arr_get (device_property s) (Num ?i) = None" for k n'
    by (rule stop, rule gatewaySendProperty_Inl[OF o(7)]) (use that o in \<open>simp del: arr_get.simps\<close>)
  have "\<exists>t. radio_gateway_part name v p s = Inl (TypeError, t) \<and>
     arrays t = arrays s \<and> packet_loss t = packet_loss s \<and>
     activeRadioRequest t = activeRadioRequest s \<and> deviceMode t = Gateway"
  proof (cases "telemetry_field name v p s")
    case (Some kn)
    obtain k n' where kn: "kn = (k, n')" by (cases kn)
    have "telemetry_slot s (Num ?i) = None"
      using ns Some by (simp add: served_def routed_def)
    then show ?thesis
      unfolding radio_gateway_part_data[OF g n, of v p]
      using tel[of k n'] Some kn by simp
  next
    case None
    show ?thesis
    proof (cases "name = ''eom''")
      case True
      have "telemetry_slot s (Num ?i) = None"
        using ns True by (simp add: served_def routed_def)
      then obtain t where "gatewaySendTelemetry (pkt_serial p) ''eom'' v ?o = Inl (TypeError, t)"
        "arrays t = arrays s \<and> packet_loss t = packet_loss s \<and>
         activeRadioRequest t = activeRadioRequest s \<and> deviceMode t = Gateway"
        using tel by blast
      then show ?thesis
        unfolding radio_gateway_part_data[OF g n, of v p]
        using None True by (simp add: and_then_def)
    next
      case False
      then have "take 2 name \<noteq> ''d:''" "arr_get (device_property s) (Num ?i) = None"
        using ns None by (simp_all add: served_def routed_def split: if_splits del: arr_get.simps)
      then show ?thesis
        unfolding radio_gateway_part_data[OF g n, of v p]
        using None False prp[of name v] by simp
    qed
  qed
  then show ?thesis
    by (auto simp: radio_onReceivedValue_def and_then_def)
qed

lemma radio_value_served:
  assumes g: "deviceMode s = Gateway" and n: "name \<noteq> ''register''" "name \<noteq> ''del''"
    and sv: "served name v p s"
  shows "\<exists>s'. radio_onReceivedValue e name v p s = Inr s'"
proof -
  note o = radio_opened_fields[OF g, of name v p]
  let ?o = "radio_opened name v p s"
  let ?i = "indexOf (device_registrar s) (pkt_serial p)"
  have tel: "\<exists>s1. gatewaySendTelemetry (pkt_serial p) k n' ?o = Inr s1 \<and> deviceMode s1 = Gateway"
    if ts: "telemetry_slot s (Num ?i) \<noteq> None" for k n'
  proof -
    obtain j0 where "telemetry_slot ?o (Num (indexOf (device_registrar ?o) (pkt_serial p))) = Some j0"
      using ts o by auto
    then show ?thesis
      using telemetry_step[OF o(7) _ refl, of "pkt_serial p" j0 k n'] by blast
  qed
  have prp: "\<exists>s1. gatewaySendProperty (pkt_serial p) k n' ?o = Inr s1 \<and> deviceMode s1 = Gateway"
    if ps: "arr_get (device_property s) (Num ?i) \<noteq> None" for k n'
  proof -
    obtain q0 where "arr_get (device_property ?o) (Num (indexOf (device_registrar ?o) (pkt_serial p))) = Some q0"
      using ps o by (auto simp del: arr_get.simps)
    then show ?thesis
      using property_step[OF o(7) _ refl, of "pkt_serial p" q0 k n'] by blast
  qed
  have "\<exists>s1. radio_gateway_part name v p s = Inr s1 \<and> deviceMode s1 = Gateway"
  proof (cases "telemetry_field name v p s")
    case (Some kn)
    obtain k n' where kn: "kn = (k, n')" by (cases kn)
    have "telemetry_slot s (Num ?i) \<noteq> None"
      using sv Some by (simp add: served_def routed_def)
    then show ?thesis
      unfolding radio_gateway_part_data[OF g n, of v p]
      using tel[of k n'] Some kn by simp
  next
    case None
    show ?thesis
    proof (cases "name = ''eom''")
      case True
      have "telemetry_slot s (Num ?i) \<noteq> None"
        using sv True by (simp add: served_def routed_def)
      then obtain s1 where "gatewaySendTelemetry (pkt_serial p) ''eom'' v ?o = Inr s1"
        "deviceMode s1 = Gateway"
        using tel by blast
      then show ?thesis
        unfolding radio_gateway_part_data[OF g n, of v p]
        using None True by (simp add: and_then_def)
    next
      case False
      show ?thesis
      proof (cases "take 2 name = ''d:''")
        case True
        then show ?thesis
          unfolding radio_gateway_part_data[OF g n, of v p]
          using None False o(7) by simp
      next
        case nd: False
        then have "arr_get (device_property s) (Num ?i) \<noteq> None"
          using sv None False by (simp add: served_def routed_def del: arr_get.simps)
        then show ?thesis
          unfolding radio_gateway_part_data[OF g n, of v p]
          using None False nd prp[of name v] by simp
      qed
    qed
  qed
  then show ?thesis
    using radio_onReceivedValue_gateway by blast
qed




subsection \<open>The arrays of the registrar stay aligned\<close>

lemma aligned_has_slots:
  "aligned s \<Longrightarrow> x \<in> set (device_registrar s) \<Longrightarrow> has_slots s x"
  using indexOf_lt[of "device_registrar s" x] indexOf_neg_iff[of "device_registrar s" x]
  by (simp add: aligned_def has_slots_def Let_def)

lemma keeps_slotsI:
  assumes "aligned s'" "\<And>x. x \<in> set (device_registrar s) \<Longrightarrow>
     indexOf (device_registrar s') x = indexOf (device_registrar s) x"
  shows "keeps_slots s s'"
  using assms aligned_has_slots[OF assms(1)] by (simp add: keeps_slots_def)

lemma keeps_slots_arrays:
  assumes "aligned s" "device_registrar s' = device_registrar s"
    "length (device_telemetry s') = length (device_telemetry s)"
    "length (device_property s') = length (device_property s)"
    "length (device_log s') = length (device_log s)"
  shows "keeps_slots s s'"
  using assms by (intro keeps_slotsI) (simp_all add: aligned_def)

lemma keeps_slots_addMicrobit:
  assumes a: "aligned s" and r: "device_registrar t = device_registrar s"
    "length (device_telemetry t) = length (device_telemetry s)"
    "length (device_property t) = length (device_property s)"
    "length (device_log t) = length (device_log s)"
  shows "keeps_slots s (addMicrobit sn t)"
proof (cases "deviceMode t = Gateway \<and> sn \<notin> set (device_registrar t)")
  case True
  then have g: "deviceMode t = Gateway" and n: "sn \<notin> set (device_registrar t)"
    by simp_all
  show ?thesis
    using a r by (intro keeps_slotsI)
      (simp_all add: aligned_def addMicrobit_new(1-4)[OF g n] indexOf_append_in)
next
  case False
  then have o: "deviceMode t \<noteq> Gateway \<or> sn \<in> set (device_registrar t)"
    by blast
  show ?thesis
    using a r by (intro keeps_slots_arrays) (simp_all add: addMicrobit_old(1-4)[OF o])
qed

lemma keeps_slots_delMicrobit:
  assumes a: "aligned s" and r: "device_registrar t = device_registrar s"
    "length (device_telemetry t) = length (device_telemetry s)"
    "length (device_property t) = length (device_property s)"
    "length (device_log t) = length (device_log s)"
  shows "keeps_slots s (delMicrobit sn t)"
  using a r by (intro keeps_slots_arrays) (simp_all add: delMicrobit_fields)

lemma fold_arrays:
  assumes "\<And>x s. arrays (F x s) = arrays s"
  shows "arrays (fold F xs s) = arrays s"
  using assms by (induction xs arbitrary: s) simp_all

lemma leaf_send_arrays: "arrays (leaf_send n v s) = arrays s"
  by (simp add: leaf_send_def pause_def radio_sendValue_def arrays_def)

lemma leaf_reply_arrays:
  "arrays (leafSendEndOfMessage (leafSendProperty (leafSendTelemetry e s))) = arrays s"
proof -
  have 1: "arrays (leafSendTelemetry e s) = arrays s" for s
    unfolding leafSendTelemetry_def Let_def
    by (simp add: fold_arrays leaf_send_arrays split_def)
  have 2: "arrays (leafSendProperty s) = arrays s" for s
    unfolding leafSendProperty_def by (simp add: fold_arrays leaf_send_arrays)
  have 3: "arrays (leafSendEndOfMessage s) = arrays s" for s
    unfolding leafSendEndOfMessage_def by (simp add: leaf_send_arrays)
  show ?thesis
    by (simp add: 1 2 3)
qed

lemma radio_leaf_part_arrays:
  "radio_leaf_part e name v s = Inr s' \<Longrightarrow> arrays s' = arrays s"
  using leaf_reply_arrays[of e s] by (auto simp: radio_leaf_part_def split: if_splits)

lemma radio_opening_arrays:
  "arrays (debug a b (setTimerRadioRequest None (debug c d s))) = arrays s"
  by (simp add: debug_eq setTimerRadioRequest_def arrays_def)

lemma radio_gateway_part_keeps:
  assumes a: "aligned s" and r: "radio_gateway_part name v p s = Inr s1"
  shows "keeps_slots s s1"
proof (cases "deviceMode s = Gateway")
  case False
  then have "s1 = s"
    using r by (simp add: radio_gateway_part_def)
  then show ?thesis
    using a by (intro keeps_slots_arrays) simp_all
next
  case g: True
  show ?thesis
  proof (cases "name = ''register'' \<or> name = ''del''")
    case True
    define t where "t = debug ''radio.onReceivedValue() > sn'' (Some (Num (pkt_serial p)))
          (setTimerRadioRequest None
             (debug (''radio.onReceivedValue('' @ name @ '','' @ show_num v @ '')'') None s))"
    have t: "arrays t = arrays s"
      unfolding t_def by (rule radio_opening_arrays)
    have "s1 = addMicrobit (pkt_serial p) t \<or> s1 = delMicrobit (pkt_serial p) t"
      using r True radio_gateway_part_registry[OF g, of v p] by (auto simp: t_def)
    then show ?thesis
      using keeps_slots_addMicrobit[OF a, of t] keeps_slots_delMicrobit[OF a, of t] arraysD[OF t]
      by auto
  next
    case False
    then have n: "name \<noteq> ''register''" "name \<noteq> ''del''"
      by simp_all
    have "radio_onReceivedValue calm name v p s = Inr s1"
    proof (rule radio_onReceivedValue_gateway[OF r])
      show "deviceMode s1 = Gateway"
      proof -
        note d = r[unfolded radio_gateway_part_data[OF g n]]
        show ?thesis
        proof (cases "telemetry_field name v p s")
          case (Some kn)
          then show ?thesis
            using d telemetry_touched(2)[OF g] by (cases kn) simp
        next
          case None
          show ?thesis
          proof (cases "name = ''eom''")
            case True
            then show ?thesis
              using d None telemetry_touched(2)[OF g]
              by (auto simp: and_then_def split: sum.splits)
          next
            case False
            then show ?thesis
              using d None property_touched(2)[OF g] radio_opened_fields(7)[OF g]
              by (auto split: if_splits)
          qed
        qed
      qed
    qed
    then have "touched_only (indexOf (device_registrar s) (pkt_serial p)) s s1"
      using radio_value_effect[OF g n] by blast
    then show ?thesis
      using a by (intro keeps_slots_arrays) (simp_all add: touched_only_def)
  qed
qed

lemma keeps_slots_aligned: "keeps_slots s s' \<Longrightarrow> aligned s'"
  by (simp add: keeps_slots_def)

lemma addMicrobit_mode: "deviceMode (addMicrobit sn s) = deviceMode s"
proof (cases "deviceMode s = Gateway \<and> sn \<notin> set (device_registrar s)")
  case True
  then show ?thesis
    by (simp add: addMicrobit_new(9))
next
  case False
  then have "deviceMode s \<noteq> Gateway \<or> sn \<in> set (device_registrar s)"
    by blast
  then show ?thesis
    by (rule addMicrobit_old(9))
qed

lemma slot_kept:
  assumes u: "device_telemetry s' = (device_telemetry s)[k := Some x]"
    and j: "telemetry_slot s j \<noteq> None"
  shows "telemetry_slot s' j \<noteq> None"
proof (cases j)
  case (Num i)
  obtain y where "telemetry_slot s (Num i) = Some y"
    using j Num by auto
  note d = telemetry_slot_SomeD[OF this]
  have l: "nat i < length (device_telemetry s)"
    using d by arith
  have "(device_telemetry s)[k := Some x] ! nat i = (if nat i = k then Some x else Some y)"
    using l d by (simp add: nth_list_update)
  then show ?thesis
    using d Num by (simp add: telemetry_slot_def u)
qed (use j in \<open>simp_all add: telemetry_slot_def\<close>)

lemma slot_kept_other:
  assumes "device_telemetry s' = (device_telemetry s)[k := y]" and "nat i \<noteq> k"
  shows "telemetry_slot s' (Num i) = telemetry_slot s (Num i)"
  using assms by (auto simp: telemetry_slot_def split: if_splits option.splits)

lemma slot_same:
  assumes "device_telemetry s' = device_telemetry s"
  shows "telemetry_slot s' j = telemetry_slot s j"
  using assms by (simp add: telemetry_slot_def)

lemma liveI:
  assumes "live s x" "device_registrar s' = device_registrar s"
    "telemetry_slot s' (Num (indexOf (device_registrar s) x)) \<noteq> None"
  shows "live s' x"
  using assms by (simp add: live_def)

lemma live_arrays: "arrays s' = arrays s \<Longrightarrow> live s' x = live s x"
  by (simp add: live_def arrays_def telemetry_slot_def)

lemma live_addMicrobit:
  assumes l: "live s x"
  shows "live (addMicrobit sn s) x"
proof (cases "deviceMode s = Gateway \<and> sn \<notin> set (device_registrar s)")
  case True
  then have g: "deviceMode s = Gateway" and n: "sn \<notin> set (device_registrar s)"
    by simp_all
  note a = addMicrobit_new[OF g n]
  have x: "x \<in> set (device_registrar s)"
    using l by (simp add: live_def)
  obtain j where j: "telemetry_slot s (Num (indexOf (device_registrar s) x)) = Some j"
    using l by (auto simp: live_def)
  note d = telemetry_slot_SomeD[OF j]
  have "nat (indexOf (device_registrar s) x) < length (device_telemetry s)"
    using d by arith
  then have "telemetry_slot (addMicrobit sn s) (Num (indexOf (device_registrar s) x)) = Some j"
    using d by (simp add: telemetry_slot_def a(2) nth_append)
  then show ?thesis
    using x by (simp add: live_def a(1) indexOf_append_in)
next
  case False
  then have o: "deviceMode s \<noteq> Gateway \<or> sn \<in> set (device_registrar s)"
    by blast
  show ?thesis
    using l addMicrobit_old(1,2)[OF o] by (simp add: live_def telemetry_slot_def)
qed

lemma indexOf_inj:
  assumes "x \<in> set xs" "y \<in> set xs" "indexOf xs x = indexOf xs y"
  shows "x = y"
proof -
  have "x = xs ! nat (indexOf xs x)"
    using indexOf_nth[OF assms(1)] by (rule sym)
  also have "\<dots> = xs ! nat (indexOf xs y)"
    by (simp only: assms(3))
  also have "\<dots> = y"
    by (rule indexOf_nth[OF assms(2)])
  finally show ?thesis .
qed

lemma delMicrobit_telemetry:
  "device_telemetry (delMicrobit sn s) =
     (if del_hits sn s then (device_telemetry s)[nat (indexOf (device_registrar s) sn) := None]
      else device_telemetry s)"
  by (subst delMicrobit_eq) simp

lemma live_delMicrobit:
  assumes l: "live s x" and ne: "x \<noteq> sn"
  shows "live (delMicrobit sn s) x"
proof (cases "del_hits sn s")
  case False
  then have "device_telemetry (delMicrobit sn s) = device_telemetry s"
    by (simp add: delMicrobit_telemetry)
  then show ?thesis
    using l by (simp add: live_def delMicrobit_fields(1) telemetry_slot_def)
next
  case True
  then have sn: "sn \<in> set (device_registrar s)" "0 \<le> indexOf (device_registrar s) sn"
    using indexOf_neg_iff[of "device_registrar s" sn] by (auto simp: del_hits_def)
  have x: "x \<in> set (device_registrar s)" "0 \<le> indexOf (device_registrar s) x"
    using l indexOf_neg_iff[of "device_registrar s" x] by (auto simp: live_def)
  have "indexOf (device_registrar s) x \<noteq> indexOf (device_registrar s) sn"
    using indexOf_inj[OF x(1) sn(1)] ne by blast
  then have d: "nat (indexOf (device_registrar s) x) \<noteq> nat (indexOf (device_registrar s) sn)"
    using sn(2) x(2) by simp
  have t: "device_telemetry (delMicrobit sn s) =
      (device_telemetry s)[nat (indexOf (device_registrar s) sn) := None]"
    using True by (simp add: delMicrobit_telemetry)
  show ?thesis
    using l slot_kept_other[OF t d] by (simp add: live_def delMicrobit_fields(1))
qed

lemma dead_delMicrobit:
  assumes g: "deviceMode s = Gateway"
  shows "\<not> live (delMicrobit sn s) sn"
proof (cases "del_hits sn s")
  case False
  then have t: "device_telemetry (delMicrobit sn s) = device_telemetry s"
    by (simp add: delMicrobit_telemetry)
  have "sn \<notin> set (device_registrar s) \<or>
      telemetry_slot s (Num (indexOf (device_registrar s) sn)) = None"
    using False g indexOf_neg_iff[of "device_registrar s" sn] by (auto simp: del_hits_def)
  then show ?thesis
    using slot_same[OF t] by (auto simp: live_def delMicrobit_fields(1))
next
  case True
  have t: "device_telemetry (delMicrobit sn s) =
      (device_telemetry s)[nat (indexOf (device_registrar s) sn) := None]"
    using True by (simp add: delMicrobit_telemetry)
  have "0 \<le> indexOf (device_registrar s) sn"
    using True by (simp add: del_hits_def)
  then have "telemetry_slot (delMicrobit sn s) (Num (indexOf (device_registrar s) sn)) = None"
    using t by (auto simp: telemetry_slot_def split: option.splits)
  then show ?thesis
    by (simp add: live_def delMicrobit_fields(1))
qed

lemma new_addMicrobit:
  assumes a: "aligned s" and g: "deviceMode s = Gateway" and n: "sn \<notin> set (device_registrar s)"
  shows "arrays (addMicrobit sn s) =
      (device_registrar s @ [sn], device_telemetry s @ [Some init_telemetry],
       device_property s @ [init_property], device_log s @ [init_log])"
    "live (addMicrobit sn s) sn"
    "buffer st (addMicrobit sn s) (Num (indexOf (device_registrar (addMicrobit sn s)) sn)) =
       Some (template st)"
proof -
  note m = addMicrobit_new[OF g n]
  show "arrays (addMicrobit sn s) =
      (device_registrar s @ [sn], device_telemetry s @ [Some init_telemetry],
       device_property s @ [init_property], device_log s @ [init_log])"
    by (simp add: arrays_def m)
  have i: "indexOf (device_registrar (addMicrobit sn s)) sn = int (length (device_registrar s))"
    by (simp add: m(1) indexOf_snoc[OF n])
  show b: "buffer st (addMicrobit sn s) (Num (indexOf (device_registrar (addMicrobit sn s)) sn)) =
       Some (template st)"
    using a by (cases st) (simp_all add: indexOf_snoc[OF n] m telemetry_slot_def aligned_def nth_append)
  have "telemetry_slot (addMicrobit sn s) (Num (int (length (device_registrar s)))) =
      Some init_telemetry"
    using a by (simp add: m telemetry_slot_def aligned_def nth_append)
  then show "live (addMicrobit sn s) sn"
    by (simp add: live_def m(1) indexOf_snoc[OF n])
qed

text \<open>A completed append keeps the telemetry slots that were there.\<close>

lemma gatewaySendTelemetry_slots:
  assumes g: "deviceMode s = Gateway" and r: "gatewaySendTelemetry sn k num s = Inr s'"
    and j: "telemetry_slot s j \<noteq> None"
  shows "telemetry_slot s' j \<noteq> None"
proof (cases "telemetry_slot s (Num (indexOf (device_registrar s) sn))")
  case None
  then show ?thesis
    using r gatewaySendTelemetry_Inl[OF g None, of k num] by simp
next
  case (Some j0)
  obtain t where t: "gatewaySendTelemetry sn k num s = Inr t"
    "\<exists>x. device_telemetry t = (device_telemetry s)[nat (indexOf (device_registrar s) sn) := Some x]"
    by (rule gatewaySendTelemetry_Inr[OF g Some, of k num]) blast
  then have "t = s'"
    using r by simp
  then show ?thesis
    using t(2) slot_kept[OF _ j] by blast
qed

text \<open>The cases of the radio handler, by what it leaves.\<close>

lemma radio_final:
  fixes s :: gstate and name :: string and v :: jsnum and p :: packet
  defines "o2 \<equiv> debug ''radio.onReceivedValue() > sn'' (Some (Num (pkt_serial p)))
          (setTimerRadioRequest None
             (debug (''radio.onReceivedValue('' @ name @ '','' @ show_num v @ '')'') None s))"
  obtains (same) "arrays (final (radio_onReceivedValue e name v p s)) = arrays s"
  | (add) "deviceMode s = Gateway" "name = ''register''"
      "final (radio_onReceivedValue e name v p s) = addMicrobit (pkt_serial p) o2"
  | (del) "deviceMode s = Gateway" "name = ''del''"
      "final (radio_onReceivedValue e name v p s) = delMicrobit (pkt_serial p) o2"
  | (data) s' where "deviceMode s = Gateway" "name \<noteq> ''register''" "name \<noteq> ''del''"
      "radio_onReceivedValue e name v p s = Inr s'"
proof (cases "deviceMode s = Gateway")
  case False
  then have "radio_onReceivedValue e name v p s = radio_leaf_part e name v s"
    by (simp add: radio_onReceivedValue_def radio_gateway_part_def radio_leaf_part_def and_then_def)
  then have "arrays (final (radio_onReceivedValue e name v p s)) = arrays s"
    using leaf_reply_arrays[of e s] by (simp add: radio_leaf_part_def final_def)
  then show ?thesis
    by (rule same)
next
  case g: True
  show ?thesis
  proof (cases "name = ''register'' \<or> name = ''del''")
    case True
    then show ?thesis
    proof
      assume n: "name = ''register''"
      have "radio_gateway_part name v p s = Inr (addMicrobit (pkt_serial p) o2)"
        unfolding n o2_def by (rule radio_gateway_part_registry(1)[OF g])
      moreover have "deviceMode (addMicrobit (pkt_serial p) o2) = Gateway"
        using g by (simp add: addMicrobit_mode o2_def debug_eq setTimerRadioRequest_def)
      ultimately have "final (radio_onReceivedValue e name v p s) = addMicrobit (pkt_serial p) o2"
        using radio_onReceivedValue_gateway[of name v p s _ e] by (simp add: final_def)
      then show ?thesis
        by (rule add[OF g n])
    next
      assume n: "name = ''del''"
      have "radio_gateway_part name v p s = Inr (delMicrobit (pkt_serial p) o2)"
        unfolding n o2_def by (rule radio_gateway_part_registry(2)[OF g])
      moreover have "deviceMode (delMicrobit (pkt_serial p) o2) = Gateway"
        using g by (simp add: delMicrobit_fields o2_def debug_eq setTimerRadioRequest_def)
      ultimately have "final (radio_onReceivedValue e name v p s) = delMicrobit (pkt_serial p) o2"
        using radio_onReceivedValue_gateway[of name v p s _ e] by (simp add: final_def)
      then show ?thesis
        by (rule del[OF g n])
    qed
  next
    case False
    then have n: "name \<noteq> ''register''" "name \<noteq> ''del''"
      by simp_all
    show ?thesis
    proof (cases "served name v p s")
      case True
      then obtain s' where "radio_onReceivedValue e name v p s = Inr s'"
        using radio_value_served[OF g n] by blast
      then show ?thesis
        by (rule data[OF g n])
    next
      case False
      then obtain t where "radio_onReceivedValue e name v p s = Inl (TypeError, t)"
        "arrays t = arrays s"
        using radio_value_stops[OF g n] by blast
      then have "arrays (final (radio_onReceivedValue e name v p s)) = arrays s"
        by (simp add: final_def)
      then show ?thesis
        by (rule same)
    qed
  qed
qed

lemma radio_value_slots:
  assumes g: "deviceMode s = Gateway" and n: "name \<noteq> ''register''" "name \<noteq> ''del''"
    and r: "radio_onReceivedValue e name v p s = Inr s'"
    and j: "telemetry_slot s j \<noteq> None"
  shows "telemetry_slot s' j \<noteq> None"
proof -
  obtain s1 where s1: "radio_gateway_part name v p s = Inr s1" "radio_leaf_part e name v s1 = Inr s'"
    using radio_onReceivedValue_gatewayD[OF r] by blast
  note d = s1(1)[unfolded radio_gateway_part_data[OF g n]]
  note o = radio_opened_fields[OF g, of name v p]
  have jo: "telemetry_slot (radio_opened name v p s) j \<noteq> None"
    using j o(10) by simp
  have *: "deviceMode s1 = Gateway \<and> telemetry_slot s1 j \<noteq> None"
  proof (cases "telemetry_field name v p s")
    case (Some kn)
    obtain k n' where kn: "kn = (k, n')" by (cases kn)
    have t: "gatewaySendTelemetry (pkt_serial p) k n' (radio_opened name v p s) = Inr s1"
      using d Some kn by simp
    show ?thesis
      using telemetry_touched(2)[OF g t] gatewaySendTelemetry_slots[OF o(7) t jo] by simp
  next
    case None
    show ?thesis
    proof (cases "name = ''eom''")
      case True
      then obtain t where t: "gatewaySendTelemetry (pkt_serial p) ''eom'' v (radio_opened name v p s) = Inr t"
        "s1 = t\<lparr>activeRadioRequest := False\<rparr>"
        using d None by (auto simp: and_then_def split: sum.splits)
      show ?thesis
        using telemetry_touched(2)[OF g t(1)] gatewaySendTelemetry_slots[OF o(7) t(1) jo] t(2)
        by (simp add: telemetry_slot_def)
    next
      case ne: False
      show ?thesis
      proof (cases "take 2 name = ''d:''")
        case True
        then have "s1 = radio_opened name v p s"
          using d None ne by simp
        then show ?thesis
          using o(7) jo by simp
      next
        case False
        then have t: "gatewaySendProperty (pkt_serial p) name v (radio_opened name v p s) = Inr s1"
          using d None ne by simp
        show ?thesis
          using property_touched(2)[OF g t] slot_same[OF gatewaySendProperty_frame(2)[OF t]] jo
          by simp
      qed
    qed
  qed
  then have "s' = s1"
    using s1(2) by (simp add: radio_leaf_part_gateway)
  then show ?thesis
    using * by simp
qed

lemma radio_final_keeps:
  assumes a: "aligned s"
  shows "keeps_slots s (final (radio_onReceivedValue e name v p s))"
proof (cases rule: radio_final[of e name v p s])
  case same
  then show ?thesis
    using a arraysD[OF same] by (intro keeps_slots_arrays) simp_all
next
  case add
  have "arrays (debug ''radio.onReceivedValue() > sn'' (Some (Num (pkt_serial p)))
          (setTimerRadioRequest None
             (debug (''radio.onReceivedValue('' @ name @ '','' @ show_num v @ '')'') None s))) = arrays s"
    by (rule radio_opening_arrays)
  note f = arraysD[OF this]
  show ?thesis
    unfolding add(3) by (intro keeps_slots_addMicrobit[OF a]) (simp_all only: f)
next
  case del
  have "arrays (debug ''radio.onReceivedValue() > sn'' (Some (Num (pkt_serial p)))
          (setTimerRadioRequest None
             (debug (''radio.onReceivedValue('' @ name @ '','' @ show_num v @ '')'') None s))) = arrays s"
    by (rule radio_opening_arrays)
  note f = arraysD[OF this]
  show ?thesis
    unfolding del(3) by (intro keeps_slots_delMicrobit[OF a]) (simp_all only: f)
next
  case (data s')
  have "touched_only (indexOf (device_registrar s) (pkt_serial p)) s s'"
    using radio_value_effect[OF data] by blast
  then show ?thesis
    using a by (intro keeps_slots_arrays) (simp_all add: touched_only_def data(4) final_def)
qed

lemma radio_final_live:
  assumes l: "live s x" and nd: "\<not> (name = ''del'' \<and> pkt_serial p = x)"
  shows "live (final (radio_onReceivedValue e name v p s)) x"
proof (cases rule: radio_final[of e name v p s])
  case same
  then show ?thesis
    using l live_arrays by blast
next
  case add
  have "arrays (debug ''radio.onReceivedValue() > sn'' (Some (Num (pkt_serial p)))
          (setTimerRadioRequest None
             (debug (''radio.onReceivedValue('' @ name @ '','' @ show_num v @ '')'') None s))) = arrays s"
    by (rule radio_opening_arrays)
  then show ?thesis
    unfolding add(3) using l live_arrays by (intro live_addMicrobit) blast
next
  case del
  have "arrays (debug ''radio.onReceivedValue() > sn'' (Some (Num (pkt_serial p)))
          (setTimerRadioRequest None
             (debug (''radio.onReceivedValue('' @ name @ '','' @ show_num v @ '')'') None s))) = arrays s"
    by (rule radio_opening_arrays)
  then have "live (debug ''radio.onReceivedValue() > sn'' (Some (Num (pkt_serial p)))
          (setTimerRadioRequest None
             (debug (''radio.onReceivedValue('' @ name @ '','' @ show_num v @ '')'') None s))) x"
    using l live_arrays by blast
  moreover have "x \<noteq> pkt_serial p"
    using nd del(2) by blast
  ultimately show ?thesis
    unfolding del(3) by (rule live_delMicrobit)
next
  case (data s')
  have t: "touched_only (indexOf (device_registrar s) (pkt_serial p)) s s'"
    using radio_value_effect[OF data] by blast
  have "telemetry_slot s' (Num (indexOf (device_registrar s) x)) \<noteq> None"
    using radio_value_slots[OF data] l by (simp add: live_def)
  then show ?thesis
    using l t by (simp add: live_def touched_only_def data(4) final_def)
qed

text \<open>
  C9, as the claim has it, fails: the arrays keep one length, but a registered serial number
  does not always have a buffer of each kind. A deactivated device stays in the registrar
  with \<^verbatim>\<open>null\<close> where its telemetry buffer was.
\<close>

theorem registry_arrays_aligned_counterexample:
  "aligned dead11 \<and> 11 \<in> set (device_registrar dead11) \<and>
   telemetry_slot dead11 (Num (indexOf (device_registrar dead11) 11)) = None"
  by code_simp

text \<open>
  C9, amended. Registering a device, deactivating a device and the radio handler, whether it
  completes or stops at an exception, keep the four arrays of an aligned registry equal in
  length (so that every registered serial number has an index inside all four) and leave
  every serial number at its index. On a gateway, registering a new serial number appends it
  and the three empty templates; deactivating a device leaves the registrar, the property
  buffers and the log buffers as they are and leaves the device without a telemetry buffer.
  A registered serial number that has a telemetry buffer keeps one through a registration,
  through the deactivation of another device and through every radio value that is not its
  own \<^verbatim>\<open>del\<close>.
\<close>

theorem registry_arrays_aligned:
  assumes a: "aligned s"
  shows "keeps_slots s (addMicrobit sn s) \<and> keeps_slots s (delMicrobit sn s) \<and>
         keeps_slots s (final (radio_onReceivedValue e name v p s)) \<and>
         (deviceMode s = Gateway \<and> sn \<notin> set (device_registrar s) \<longrightarrow>
            arrays (addMicrobit sn s) =
              (device_registrar s @ [sn], device_telemetry s @ [Some init_telemetry],
               device_property s @ [init_property], device_log s @ [init_log]) \<and>
            live (addMicrobit sn s) sn) \<and>
         (deviceMode s = Gateway \<longrightarrow>
            \<not> live (delMicrobit sn s) sn \<and>
            device_registrar (delMicrobit sn s) = device_registrar s \<and>
            device_property (delMicrobit sn s) = device_property s \<and>
            device_log (delMicrobit sn s) = device_log s) \<and>
         (live s x \<longrightarrow>
            live (addMicrobit sn s) x \<and> (x \<noteq> sn \<longrightarrow> live (delMicrobit sn s) x) \<and>
            (\<not> (name = ''del'' \<and> pkt_serial p = x) \<longrightarrow>
               live (final (radio_onReceivedValue e name v p s)) x))"
proof (intro conjI impI)
  show "keeps_slots s (addMicrobit sn s)"
    by (rule keeps_slots_addMicrobit[OF a]) simp_all
  show "keeps_slots s (delMicrobit sn s)"
    by (rule keeps_slots_delMicrobit[OF a]) simp_all
  show "keeps_slots s (final (radio_onReceivedValue e name v p s))"
    by (rule radio_final_keeps[OF a])
next
  assume n: "deviceMode s = Gateway \<and> sn \<notin> set (device_registrar s)"
  show "arrays (addMicrobit sn s) =
      (device_registrar s @ [sn], device_telemetry s @ [Some init_telemetry],
       device_property s @ [init_property], device_log s @ [init_log])"
    using new_addMicrobit(1)[OF a] n by blast
  show "live (addMicrobit sn s) sn"
    using new_addMicrobit(2)[OF a] n by blast
next
  assume g: "deviceMode s = Gateway"
  show "\<not> live (delMicrobit sn s) sn"
    by (rule dead_delMicrobit[OF g])
  show "device_registrar (delMicrobit sn s) = device_registrar s"
    "device_property (delMicrobit sn s) = device_property s"
    "device_log (delMicrobit sn s) = device_log s"
    by (simp_all add: delMicrobit_fields)
next
  assume l: "live s x"
  show "live (addMicrobit sn s) x"
    by (rule live_addMicrobit[OF l])
  show "live (delMicrobit sn s) x" if "x \<noteq> sn"
    by (rule live_delMicrobit[OF l that])
  show "live (final (radio_onReceivedValue e name v p s)) x"
    if "\<not> (name = ''del'' \<and> pkt_serial p = x)"
    by (rule radio_final_live[OF l that])
qed

theorem registry_arrays_aligned_witness:
  "aligned quiet7 \<and> deviceMode quiet7 = Gateway \<and> 11 \<notin> set (device_registrar quiet7) \<and>
   live quiet7 7 \<and> (7::int) \<noteq> 11 \<and> \<not> (''register'' = ''del'' \<and> pkt_serial from12 = 7) \<and>
   keeps_slots quiet7 (addMicrobit 11 quiet7) \<and> keeps_slots quiet7 (delMicrobit 11 quiet7) \<and>
   keeps_slots quiet7 (final (radio_onReceivedValue calm ''register'' (Num 0) from12 quiet7)) \<and>
   live (addMicrobit 11 quiet7) 11 \<and> \<not> live (delMicrobit 11 quiet7) 11 \<and>
   live (addMicrobit 11 quiet7) 7 \<and> live (delMicrobit 11 quiet7) 7 \<and>
   live (final (radio_onReceivedValue calm ''register'' (Num 0) from12 quiet7)) 7"
proof -
  have a: "aligned quiet7"
    by (simp add: aligned_def quiet7_fields)
  have l: "live quiet7 7"
    using quiet7_slot by (simp add: live_def quiet7_fields)
  have n: "11 \<notin> set (device_registrar quiet7)" "(7::int) \<noteq> 11"
    "\<not> (''register'' = ''del'' \<and> pkt_serial from12 = 7)"
    by (simp_all add: quiet7_fields)
  show ?thesis
    using registry_arrays_aligned[OF a, of 11 calm "''register''" "Num 0" from12 7] a l n quiet7_fields(1)
    by blast
qed

end
